theory Spec2Isabelle
  imports Complex_Main "HOL-Library.Multiset"
begin

section \<open>The availability and pricing endpoint of \<^verbatim>\<open>api.py\<close>\<close>

text \<open>
  The repository is one Flask handler, \<^verbatim>\<open>check_availability_and_price\<close>. It reads
  three query parameters, parses two dates, asks PostgreSQL for the candidate rows and
  prices each row with Python's \<^verbatim>\<open>Decimal\<close>. The handler is modelled as a function
  from the data store and the query parameters to the response and the trace of the
  data-store calls it made. Library behaviour the handler relies on (\<^verbatim>\<open>Decimal\<close>
  arithmetic, \<^verbatim>\<open>float\<close>, \<^verbatim>\<open>strptime\<close>, \<^verbatim>\<open>int\<close>, SQL three-valued logic) is
  written out as far as the handler observes it. A string is the list of its code
  points, which are below 256 here.
\<close>

subsection \<open>Python's \<^verbatim>\<open>Decimal\<close> in the default context\<close>

text \<open>
  A finite \<^verbatim>\<open>Decimal\<close> is held as the rational number it denotes. The handler never
  changes the decimal context, so every arithmetic result is the exact result rounded to
  28 significant digits, ties to even (\<^verbatim>\<open>prec=28, rounding=ROUND_HALF_EVEN\<close>).
  \<^verbatim>\<open>Decimal(x)\<close> of a value that is already a \<^verbatim>\<open>Decimal\<close> does not round. The
  exponent limits of the context (\<^verbatim>\<open>Emax = 999999\<close>) and the special values
  \<^verbatim>\<open>NaN\<close> and \<^verbatim>\<open>Infinity\<close> are outside the model.
\<close>

type_synonym decimal = rat

datatype exn = ValueError | InvalidOperation | DatabaseError

text \<open>\<open>ilog b n\<close> is the number of digits of \<open>n \<ge> 1\<close> in base \<open>b\<close>, less one.\<close>

function ilog :: "int \<Rightarrow> int \<Rightarrow> int" where
  "ilog b n = (if n < b \<or> b < 2 then 0 else 1 + ilog b (n div b))"
  by pat_completeness auto
termination
  by (relation "measure (\<lambda>(b, n). nat n)") (auto simp add: int_div_less_self)

declare ilog.simps [simp del]

text \<open>\<open>adjusted b x\<close> is the exponent of the leading base-\<open>b\<close> digit of \<open>x \<noteq> 0\<close>
  (for base 10, \<^verbatim>\<open>Decimal.adjusted()\<close>).\<close>

definition adjusted :: "int \<Rightarrow> rat \<Rightarrow> int" where
  "adjusted b x =
     (let (p, q) = quotient_of \<bar>x\<bar>; d = ilog b p - ilog b q
      in if of_int b powi d \<le> \<bar>x\<bar> then d else d - 1)"

definition round_half_even :: "rat \<Rightarrow> int" where
  "round_half_even x =
     (let f = \<lfloor>x\<rfloor>; r = x - of_int f
      in if r < 1 / 2 then f else if 1 / 2 < r then f + 1 else if even f then f else f + 1)"

text \<open>Rounding to \<open>p\<close> significant digits in base \<open>b\<close>, ties to even.\<close>

definition round_sig :: "int \<Rightarrow> int \<Rightarrow> rat \<Rightarrow> rat" where
  "round_sig b p x =
     (if x = 0 then 0
      else let e = adjusted b x - (p - 1)
           in of_int (round_half_even (x / of_int b powi e)) * of_int b powi e)"

definition ctx_round :: "rat \<Rightarrow> decimal" where
  "ctx_round x = round_sig 10 28 x"

definition dec_mul :: "decimal \<Rightarrow> decimal \<Rightarrow> decimal" where
  "dec_mul x y = ctx_round (x * y)"

definition dec_add :: "decimal \<Rightarrow> decimal \<Rightarrow> decimal" where
  "dec_add x y = ctx_round (x + y)"

text \<open>Division is only ever by \<^verbatim>\<open>Decimal('30')\<close>, so no division by zero arises.\<close>

definition dec_div :: "decimal \<Rightarrow> decimal \<Rightarrow> decimal" where
  "dec_div x y = ctx_round (x / y)"

text \<open>A value is exact in the context when it has at most 28 significant digits, that is
  when the context leaves it as it is.\<close>

definition exact_in_context :: "rat \<Rightarrow> bool" where
  "exact_in_context x \<longleftrightarrow> ctx_round x = x"

definition round_half_up :: "rat \<Rightarrow> int" where
  "round_half_up x = (if 0 \<le> x then \<lfloor>x + 1 / 2\<rfloor> else - \<lfloor>- x + 1 / 2\<rfloor>)"

text \<open>\<^verbatim>\<open>x.quantize(Decimal('1'), rounding=ROUND_HALF_UP)\<close>: the nearest integer, ties
  away from zero; \<^verbatim>\<open>InvalidOperation\<close> when the result needs more than 28 digits.\<close>

definition quantize_half_up :: "decimal \<Rightarrow> exn + int" where
  "quantize_half_up x =
     (let r = round_half_up x in if 10 ^ 28 \<le> \<bar>r\<bar> then Inl InvalidOperation else Inr r)"

subsection \<open>Python's \<^verbatim>\<open>float\<close> of a \<^verbatim>\<open>Decimal\<close>\<close>

text \<open>
  \<^verbatim>\<open>float(d)\<close> is the IEEE binary64 number nearest to \<open>d\<close>, ties to even: 53
  significant bits in the normal range, multiples of \<open>2 ^ - 1074\<close> below
  \<open>2 ^ - 1022\<close>, and an infinity when the rounded value reaches \<open>2 ^ 1024\<close>. A finite
  float is held as the rational number it denotes (the sign of a zero is not kept).
\<close>

datatype py_float = Finite rat | Infinity | Neg_infinity

definition float_of_decimal :: "decimal \<Rightarrow> py_float" where
  "float_of_decimal x =
     (if x = 0 then Finite 0
      else let a = adjusted 2 x
           in if a < - 1022 then Finite (of_int (round_half_even (x * 2 ^ 1074)) / 2 ^ 1074)
              else if a < 1023 then Finite (round_sig 2 53 x)
              else (let y = round_sig 2 53 x
                    in if 2 ^ 1024 \<le> \<bar>y\<bar> then (if 0 < x then Infinity else Neg_infinity)
                       else Finite y))"

subsection \<open>What rounding to the nearest means\<close>

text \<open>
  \<open>nearest_sig b p x y\<close> states, without reference to the functions above, that \<open>y\<close>
  is \<open>x\<close> rounded to \<open>p\<close> significant base-\<open>b\<close> digits, ties to even: \<open>y\<close> is
  \<open>c * b ^ e\<close> for the exponent \<open>e\<close> that scales \<open>\<bar>x\<bar>\<close> into
  \<open>[b ^ (p - 1), b ^ p)\<close> and an integer \<open>c\<close> at most one half away from the scaled
  \<open>x\<close>, even when exactly one half away.
\<close>

definition nearest_sig :: "int \<Rightarrow> int \<Rightarrow> rat \<Rightarrow> rat \<Rightarrow> bool" where
  "nearest_sig b p x y \<longleftrightarrow>
     (x = 0 \<and> y = 0)
     \<or> (\<exists>e c. of_int b powi (p - 1) \<le> \<bar>x\<bar> / of_int b powi e
              \<and> \<bar>x\<bar> / of_int b powi e < of_int b powi p
              \<and> \<bar>of_int c - x / of_int b powi e\<bar> \<le> 1 / 2
              \<and> (\<bar>of_int c - x / of_int b powi e\<bar> = 1 / 2 \<longrightarrow> even c)
              \<and> y = of_int c * of_int b powi e)"

subsection \<open>Dates: \<^verbatim>\<open>datetime.strptime(s, '%Y-%m-%d').date()\<close>\<close>

datatype date = Date (year: int) (month: int) (day: int)

definition is_leap :: "int \<Rightarrow> bool" where
  "is_leap y \<longleftrightarrow> y mod 4 = 0 \<and> (y mod 100 \<noteq> 0 \<or> y mod 400 = 0)"

definition days_in_month :: "int \<Rightarrow> int \<Rightarrow> int" where
  "days_in_month y m =
     (if m = 2 then (if is_leap y then 29 else 28)
      else if m = 4 \<or> m = 6 \<or> m = 9 \<or> m = 11 then 30 else 31)"

definition days_before_year :: "int \<Rightarrow> int" where
  "days_before_year y = (y - 1) * 365 + (y - 1) div 4 - (y - 1) div 100 + (y - 1) div 400"

fun days_before_month :: "int \<Rightarrow> nat \<Rightarrow> int" where
  "days_before_month y 0 = 0"
| "days_before_month y (Suc k) =
     (if k = 0 then 0 else days_before_month y k + days_in_month y (int k))"

definition toordinal :: "date \<Rightarrow> int" where
  "toordinal d = days_before_year (year d) + days_before_month (year d) (nat (month d)) + day d"

text \<open>\<^verbatim>\<open>(end_date - start_date).days\<close>\<close>

definition days_between :: "date \<Rightarrow> date \<Rightarrow> int" where
  "days_between e s = toordinal e - toordinal s"

definition is_digit :: "char \<Rightarrow> bool" where
  "is_digit c \<longleftrightarrow> c \<in> set ''0123456789''"

definition digit_val :: "char \<Rightarrow> int" where
  "digit_val c = int (of_char c) - 48"

fun digits_val :: "int \<Rightarrow> string \<Rightarrow> int" where
  "digits_val acc [] = acc"
| "digits_val acc (c # cs) = digits_val (10 * acc + digit_val c) cs"

text \<open>One or two digits denoting a number from 1 to \<open>hi\<close>: the regular expressions
  \<^verbatim>\<open>1[0-2]|0[1-9]|[1-9]\<close> of \<^verbatim>\<open>%m\<close> and, with the alternative of a space and a
  digit added below, \<^verbatim>\<open>3[01]|[12]\d|0[1-9]|[1-9]| [1-9]\<close> of \<^verbatim>\<open>%d\<close>.\<close>

definition small_number :: "int \<Rightarrow> string \<Rightarrow> int option" where
  "small_number hi s =
     (if (length s = 1 \<or> length s = 2) \<and> list_all is_digit s
         \<and> 1 \<le> digits_val 0 s \<and> digits_val 0 s \<le> hi
      then Some (digits_val 0 s) else None)"

definition day_field :: "string \<Rightarrow> int option" where
  "day_field s =
     (case s of
        [sp, c] \<Rightarrow>
          (if sp = CHR '' '' then (if is_digit c \<and> c \<noteq> CHR ''0'' then Some (digit_val c) else None)
           else small_number 31 s)
      | _ \<Rightarrow> small_number 31 s)"

text \<open>The constructor \<^verbatim>\<open>date(y, m, d)\<close> raises \<^verbatim>\<open>ValueError\<close> for year 0 and for
  a day the month does not have.\<close>

definition make_date :: "int \<Rightarrow> int \<Rightarrow> int \<Rightarrow> exn + date" where
  "make_date y m d =
     (if 1 \<le> y \<and> y \<le> 9999 \<and> 1 \<le> m \<and> m \<le> 12 \<and> 1 \<le> d \<and> d \<le> days_in_month y m
      then Inr (Date y m d) else Inl ValueError)"

text \<open>The string has to match \<^verbatim>\<open>\d\d\d\d-%m-%d\<close> to its end. Among the code points
  below 256 the decimal digits that \<^verbatim>\<open>\d\<close> accepts are \<open>0\<close> to \<open>9\<close>.\<close>

definition strptime_ymd :: "string \<Rightarrow> exn + date" where
  "strptime_ymd s =
     (let ys = take 4 s; rest = drop 5 s;
          ms = takeWhile (\<lambda>c. c \<noteq> CHR ''-'') rest;
          ds = drop (Suc (length ms)) rest
      in if length ys = 4 \<and> list_all is_digit ys \<and> take 1 (drop 4 s) = ''-''
            \<and> take 1 (drop (length ms) rest) = ''-''
         then (case (small_number 12 ms, day_field ds) of
                 (Some m, Some d) \<Rightarrow> make_date (digits_val 0 ys) m d
               | _ \<Rightarrow> Inl ValueError)
         else Inl ValueError)"

subsection \<open>Query parameters: \<^verbatim>\<open>request.args\<close>\<close>

text \<open>\<^verbatim>\<open>request.args\<close> is a multi-dictionary; \<^verbatim>\<open>get\<close> returns the first value of a
  key, or \<^verbatim>\<open>None\<close>. With \<^verbatim>\<open>type=int\<close> the value goes through \<^verbatim>\<open>int(...)\<close>, and
  a \<^verbatim>\<open>ValueError\<close> there gives the default \<^verbatim>\<open>None\<close>.\<close>

type_synonym args = "(string \<times> string) list"

definition args_get :: "args \<Rightarrow> string \<Rightarrow> string option" where
  "args_get a k = map_of a k"

definition is_space :: "char \<Rightarrow> bool" where
  "is_space c \<longleftrightarrow>
     c \<in> set [CHR '' '', CHR 0x09, CHR 0x0A, CHR 0x0B, CHR 0x0C, CHR 0x0D, CHR 0x85, CHR 0xA0]"

definition strip :: "string \<Rightarrow> string" where
  "strip s = rev (dropWhile is_space (rev (dropWhile is_space s)))"

text \<open>Decimal digits, where single underscores may separate digits.\<close>

fun int_digits :: "int \<Rightarrow> string \<Rightarrow> int option" where
  "int_digits acc [] = Some acc"
| "int_digits acc [c] = (if is_digit c then Some (10 * acc + digit_val c) else None)"
| "int_digits acc (c # d # cs) =
     (if is_digit c then int_digits (10 * acc + digit_val c) (d # cs)
      else if c = CHR ''_'' \<and> is_digit d then int_digits (10 * acc + digit_val d) cs
      else None)"

definition int_body :: "string \<Rightarrow> int option" where
  "int_body s =
     (case s of [] \<Rightarrow> None
      | c # cs \<Rightarrow> if is_digit c then int_digits (digit_val c) cs else None)"

text \<open>\<^verbatim>\<open>int(s)\<close>: \<open>None\<close> stands for \<^verbatim>\<open>ValueError\<close>. The white space stripped
  is what \<^verbatim>\<open>int\<close> strips among the code points below 256, and a literal of more than
  4300 digits is refused (CPython 3.11 and later).\<close>

definition int_literal :: "string \<Rightarrow> int option" where
  "int_literal s = (if 4300 < length (filter is_digit s) then None else int_body s)"

definition py_int :: "string \<Rightarrow> int option" where
  "py_int s =
     (case strip s of [] \<Rightarrow> None
      | c # cs \<Rightarrow>
          if c = CHR ''-'' then map_option uminus (int_literal cs)
          else if c = CHR ''+'' then int_literal cs
          else int_literal (c # cs))"

definition args_get_int :: "args \<Rightarrow> string \<Rightarrow> int option" where
  "args_get_int a k = (case args_get a k of None \<Rightarrow> None | Some s \<Rightarrow> py_int s)"

subsection \<open>The data store\<close>

text \<open>
  Modelled from the spec: the table declarations of \<^verbatim>\<open>properties\<close>,
  \<^verbatim>\<open>pricing_rules\<close> and \<^verbatim>\<open>bookings\<close> are not in the repository. The columns are
  those the query names; following the data model of the specification only
  \<^verbatim>\<open>price_per_night\<close> and \<^verbatim>\<open>monthly_rate\<close> are nullable. A \<^verbatim>\<open>DATE\<close> column is
  held as a \<^typ>\<open>date\<close> and compared by its ordinal.
\<close>

record property =
  p_id :: int
  p_name :: string
  p_description :: string
  p_num_bedrooms :: int
  p_min_stay_nights :: int
  p_pricing_category :: string

record pricing_rule =
  pr_category :: string
  pr_price_per_night :: "decimal option"
  pr_monthly_rate :: "decimal option"
  pr_min_nights :: int
  pr_max_nights :: int

record booking =
  b_property_id :: int
  b_start_date :: date
  b_end_date :: date

record database =
  properties :: "property list"
  pricing_rules :: "pricing_rule list"
  bookings :: "booking list"

subsection \<open>The SQL query\<close>

text \<open>SQL conditions have three values; \<open>None\<close> is \<^verbatim>\<open>NULL\<close> (unknown). A row passes
  \<^verbatim>\<open>WHERE\<close> only when the condition is true.\<close>

type_synonym sql_bool = "bool option"

fun sql_and :: "sql_bool \<Rightarrow> sql_bool \<Rightarrow> sql_bool" where
  "sql_and (Some False) _ = Some False"
| "sql_and _ (Some False) = Some False"
| "sql_and (Some True) (Some True) = Some True"
| "sql_and _ _ = None"

fun sql_or :: "sql_bool \<Rightarrow> sql_bool \<Rightarrow> sql_bool" where
  "sql_or (Some True) _ = Some True"
| "sql_or _ (Some True) = Some True"
| "sql_or (Some False) (Some False) = Some False"
| "sql_or _ _ = None"

definition sql_le :: "int option \<Rightarrow> int option \<Rightarrow> sql_bool" where
  "sql_le a b = (case (a, b) of (Some x, Some y) \<Rightarrow> Some (x \<le> y) | _ \<Rightarrow> None)"

text \<open>\<^verbatim>\<open>properties p LEFT JOIN pricing_rules pr ON p.pricing_category = pr.category\<close>:
  one row for each matching rule, and one row with every \<^verbatim>\<open>pr\<close> column \<^verbatim>\<open>NULL\<close> for
  a property that no rule matches.\<close>

type_synonym joined_row = "property \<times> pricing_rule option"

definition join_property :: "pricing_rule list \<Rightarrow> property \<Rightarrow> joined_row list" where
  "join_property rules p =
     (let ms = filter (\<lambda>r. pr_category r = p_pricing_category p) rules
      in if ms = [] then [(p, None)] else map (\<lambda>r. (p, Some r)) ms)"

definition left_join :: "property list \<Rightarrow> pricing_rule list \<Rightarrow> joined_row list" where
  "left_join ps rules = concat (map (join_property rules) ps)"

text \<open>The columns of \<^verbatim>\<open>pr\<close> in a joined row.\<close>

definition col_min_nights :: "pricing_rule option \<Rightarrow> int option" where
  "col_min_nights pr = map_option pr_min_nights pr"

definition col_max_nights :: "pricing_rule option \<Rightarrow> int option" where
  "col_max_nights pr = map_option pr_max_nights pr"

definition col_price_per_night :: "pricing_rule option \<Rightarrow> decimal option" where
  "col_price_per_night pr = (case pr of None \<Rightarrow> None | Some r \<Rightarrow> pr_price_per_night r)"

definition col_monthly_rate :: "pricing_rule option \<Rightarrow> decimal option" where
  "col_monthly_rate pr = (case pr of None \<Rightarrow> None | Some r \<Rightarrow> pr_monthly_rate r)"

text \<open>\<^verbatim>\<open>(pr.min_nights <= %s AND pr.max_nights >= %s AND pr.monthly_rate IS NULL)\<close>\<close>

definition nightly_rule :: "int \<Rightarrow> pricing_rule option \<Rightarrow> sql_bool" where
  "nightly_rule nights pr =
     sql_and (sql_and (sql_le (col_min_nights pr) (Some nights))
                      (sql_le (Some nights) (col_max_nights pr)))
             (Some (col_monthly_rate pr = None))"

text \<open>\<^verbatim>\<open>(%s >= 30 AND pr.monthly_rate IS NOT NULL AND pr.min_nights >= 30)\<close>\<close>

definition monthly_rule :: "int \<Rightarrow> pricing_rule option \<Rightarrow> sql_bool" where
  "monthly_rule nights pr =
     sql_and (sql_and (Some (30 \<le> nights)) (Some (col_monthly_rate pr \<noteq> None)))
             (sql_le (Some 30) (col_min_nights pr))"

text \<open>\<^verbatim>\<open>SELECT b.property_id FROM bookings b WHERE b.start_date < %s AND b.end_date > %s\<close>,
  with the parameters \<^verbatim>\<open>(end_date_str, start_date_str)\<close> in this order.\<close>

definition booked_property_ids :: "booking list \<Rightarrow> date \<Rightarrow> date \<Rightarrow> int list" where
  "booked_property_ids bs end_date start_date =
     map b_property_id
       (filter (\<lambda>b. toordinal (b_start_date b) < toordinal end_date
                   \<and> toordinal (b_end_date b) > toordinal start_date) bs)"

text \<open>\<^verbatim>\<open>p.id NOT IN (...)\<close>; no column involved is nullable.\<close>

definition not_booked :: "booking list \<Rightarrow> date \<Rightarrow> date \<Rightarrow> property \<Rightarrow> sql_bool" where
  "not_booked bs end_date start_date p =
     Some (p_id p \<notin> set (booked_property_ids bs end_date start_date))"

definition where_clause ::
  "database \<Rightarrow> int \<Rightarrow> int \<Rightarrow> date \<Rightarrow> date \<Rightarrow> joined_row \<Rightarrow> sql_bool" where
  "where_clause db num_bedrooms nights end_date start_date row =
     (case row of (p, pr) \<Rightarrow>
        sql_and
          (sql_and
             (sql_and (Some (p_num_bedrooms p = num_bedrooms))
                      (Some (p_min_stay_nights p \<le> nights)))
             (sql_or (nightly_rule nights pr) (monthly_rule nights pr)))
          (not_booked (bookings db) end_date start_date p))"

text \<open>\<^verbatim>\<open>SELECT p.id, p.name, p.description, pr.price_per_night, pr.monthly_rate\<close>\<close>

type_synonym result_row = "int \<times> string \<times> string \<times> decimal option \<times> decimal option"

definition select_columns :: "joined_row \<Rightarrow> result_row" where
  "select_columns row =
     (case row of (p, pr) \<Rightarrow>
        (p_id p, p_name p, p_description p, col_price_per_night pr, col_monthly_rate pr))"

text \<open>\<^verbatim>\<open>ORDER BY p.id\<close>. SQL leaves the order of rows with the same \<^verbatim>\<open>p.id\<close> open;
  the model keeps them in join order (a stable sort).\<close>

definition sql_query :: "database \<Rightarrow> int \<Rightarrow> int \<Rightarrow> date \<Rightarrow> date \<Rightarrow> result_row list" where
  "sql_query db num_bedrooms nights end_date start_date =
     map select_columns
       (sort_key (\<lambda>row. p_id (fst row))
          (filter (\<lambda>row. where_clause db num_bedrooms nights end_date start_date row = Some True)
             (left_join (properties db) (pricing_rules db))))"

subsection \<open>Pricing a candidate row\<close>

text \<open>Lines 109 to 129: the total before rounding.\<close>

definition total_price :: "int \<Rightarrow> decimal option \<Rightarrow> decimal option \<Rightarrow> decimal" where
  "total_price stay_duration_nights price_per_night monthly_rate =
     (if 30 \<le> stay_duration_nights \<and> monthly_rate \<noteq> None then
        (let monthly_rate_dec = the monthly_rate;
             num_months = stay_duration_nights div 30;
             remaining_days = stay_duration_nights mod 30;
             total = dec_mul (of_int num_months) monthly_rate_dec
         in if 0 < remaining_days then
              (let daily_rate = dec_div monthly_rate_dec 30
               in dec_add total (dec_mul (of_int remaining_days) daily_rate))
            else total)
      else if price_per_night \<noteq> None then
        dec_mul (of_int stay_duration_nights) (the price_per_night)
      else 0)"

text \<open>One entry of the JSON list; the two numeric fields are floats.\<close>

record entry =
  property_id :: int
  name :: string
  description :: string
  monthly_rate_field :: "py_float option"
  total_price_field :: py_float

text \<open>Lines 131 to 141 for one row: \<open>Inr None\<close> when nothing is appended.\<close>

definition price_row :: "int \<Rightarrow> result_row \<Rightarrow> exn + entry option" where
  "price_row stay_duration_nights prop =
     (case prop of (prop_id, nm, descr, price_per_night, monthly_rate) \<Rightarrow>
        (let total = total_price stay_duration_nights price_per_night monthly_rate
         in if 0 < total then
              (case quantize_half_up total of
                 Inl e \<Rightarrow> Inl e
               | Inr final_price \<Rightarrow>
                   Inr (Some \<lparr>property_id = prop_id, name = nm, description = descr,
                              monthly_rate_field =
                                (if monthly_rate \<noteq> None \<and> monthly_rate \<noteq> Some 0
                                 then Some (float_of_decimal (the monthly_rate)) else None),
                              total_price_field = float_of_decimal (of_int final_price)\<rparr>))
            else Inr None))"

text \<open>The loop over \<^verbatim>\<open>available_properties\<close>; an exception leaves the loop.\<close>

fun price_rows :: "int \<Rightarrow> result_row list \<Rightarrow> exn + entry list" where
  "price_rows n [] = Inr []"
| "price_rows n (prop # props) =
     (case price_row n prop of
        Inl e \<Rightarrow> Inl e
      | Inr r \<Rightarrow>
          (case price_rows n props of
             Inl e \<Rightarrow> Inl e
           | Inr rs \<Rightarrow> Inr (case r of None \<Rightarrow> rs | Some x \<Rightarrow> x # rs)))"

subsection \<open>The handler\<close>

text \<open>The calls the handler makes on the data store. The store is the tables together
  with the call, if any, at which \<^verbatim>\<open>psycopg2\<close> raises.\<close>

datatype db_call = Connect | Cursor | Execute | Fetchall | Cursor_close | Conn_close

record store =
  tables :: database
  fails_at :: "db_call option"

datatype response =
    Results "entry list"
  | Missing_parameters
  | Server_error exn

definition status_code :: "response \<Rightarrow> nat" where
  "status_code r = (case r of Results _ \<Rightarrow> 200 | Missing_parameters \<Rightarrow> 400 | Server_error _ \<Rightarrow> 500)"

text \<open>
  The query receives the two date strings as they came in (line 94) and the data store
  reads them itself. Only strings that \<^verbatim>\<open>strptime\<close> accepted get this far. Of these
  PostgreSQL refuses the one form that goes beyond ISO \<^verbatim>\<open>YYYY-M-D\<close>, a space in front
  of a one-digit day, and reads every other one as the same day.
\<close>

definition date_in :: "string \<Rightarrow> date option" where
  "date_in s =
     (case strptime_ymd s of
        Inr d \<Rightarrow> if CHR '' '' \<in> set s then None else Some d
      | Inl e \<Rightarrow> None)"

text \<open>Lines 55 to 99: the calls in program order, stopping at the one that raises;
  \<^verbatim>\<open>execute\<close> also raises when the data store cannot read a date parameter. The
  second component lists the calls that returned.\<close>

fun run_calls :: "db_call option \<Rightarrow> db_call list \<Rightarrow> db_call list \<Rightarrow> bool \<times> db_call list" where
  "run_calls f done [] = (True, done)"
| "run_calls f done (c # cs) =
     (if f = Some c then (False, done) else run_calls f (done @ [c]) cs)"

definition first_failure :: "store \<Rightarrow> string \<Rightarrow> string \<Rightarrow> db_call option" where
  "first_failure st end_date_str start_date_str =
     (if fails_at st = Some Connect \<or> fails_at st = Some Cursor then fails_at st
      else if date_in end_date_str = None \<or> date_in start_date_str = None then Some Execute
      else fails_at st)"

definition fetch_available ::
  "store \<Rightarrow> int \<Rightarrow> int \<Rightarrow> string \<Rightarrow> string \<Rightarrow> (exn + result_row list) \<times> db_call list" where
  "fetch_available st num_bedrooms nights end_date_str start_date_str =
     (case run_calls (first_failure st end_date_str start_date_str) []
             [Connect, Cursor, Execute, Fetchall, Cursor_close, Conn_close] of
        (ok, calls) \<Rightarrow>
          (if ok then Inr (sql_query (tables st) num_bedrooms nights
                             (the (date_in end_date_str)) (the (date_in start_date_str)))
           else Inl DatabaseError, calls))"

definition falsy :: "string option \<Rightarrow> bool" where
  "falsy s \<longleftrightarrow> s = None \<or> s = Some []"

text \<open>
  \<^verbatim>\<open>check_availability_and_price\<close>. In the source text \<^verbatim>\<open>jsonify()\<close> on line 53 and
  \<^verbatim>\<open>results =\<close> on line 106 have lost their list literal; the comment on line 53
  (an empty list is returned) fixes the reading.
\<close>

definition check_availability_and_price :: "store \<Rightarrow> args \<Rightarrow> response \<times> db_call list" where
  "check_availability_and_price st a =
     (let start_date_str = args_get a ''start_date'';
          end_date_str = args_get a ''end_date'';
          num_bedrooms = args_get_int a ''num_bedrooms''
      in if falsy start_date_str \<or> falsy end_date_str
            \<or> num_bedrooms = None \<or> num_bedrooms = Some 0
         then (Missing_parameters, [])
         else
           (case strptime_ymd (the start_date_str) of
              Inl e \<Rightarrow> (Server_error e, [])
            | Inr start_date \<Rightarrow>
                (case strptime_ymd (the end_date_str) of
                   Inl e \<Rightarrow> (Server_error e, [])
                 | Inr end_date \<Rightarrow>
                     (let stay_duration_nights = days_between end_date start_date
                      in if stay_duration_nights < 4 then (Results [], [])
                         else
                           (case fetch_available st (the num_bedrooms) stay_duration_nights
                                   (the end_date_str) (the start_date_str) of
                              (Inl e, calls) \<Rightarrow> (Server_error e, calls)
                            | (Inr available_properties, calls) \<Rightarrow>
                                (case price_rows stay_duration_nights available_properties of
                                   Inl e \<Rightarrow> (Server_error e, calls)
                                 | Inr results \<Rightarrow> (Results results, calls)))))))"

subsection \<open>The candidate set in the words of the specification\<close>

text \<open>
  Section 4.2 of the specification describes the join as an outer join under which a
  property without any matching rule row is still considered. \<open>spec_candidates\<close>
  follows these words: it is the query with the rule condition waived for a row whose
  \<^verbatim>\<open>pr\<close> side is \<^verbatim>\<open>NULL\<close>. It is compared with \<open>sql_query\<close> below.
\<close>

definition spec_where_clause ::
  "database \<Rightarrow> int \<Rightarrow> int \<Rightarrow> date \<Rightarrow> date \<Rightarrow> joined_row \<Rightarrow> sql_bool" where
  "spec_where_clause db num_bedrooms nights end_date start_date row =
     (case row of (p, pr) \<Rightarrow>
        sql_and
          (sql_and
             (sql_and (Some (p_num_bedrooms p = num_bedrooms))
                      (Some (p_min_stay_nights p \<le> nights)))
             (case pr of None \<Rightarrow> Some True
              | Some r \<Rightarrow> sql_or (nightly_rule nights pr) (monthly_rule nights pr)))
          (not_booked (bookings db) end_date start_date p))"

definition spec_candidates ::
  "database \<Rightarrow> int \<Rightarrow> int \<Rightarrow> date \<Rightarrow> date \<Rightarrow> result_row list" where
  "spec_candidates db num_bedrooms nights end_date start_date =
     map select_columns
       (sort_key (\<lambda>row. p_id (fst row))
          (filter (\<lambda>row. spec_where_clause db num_bedrooms nights end_date start_date row
                          = Some True)
             (left_join (properties db) (pricing_rules db))))"

subsection \<open>Example data\<close>

definition empty_store :: store where
  "empty_store = \<lparr>tables = \<lparr>properties = [], pricing_rules = [], bookings = []\<rparr>,
                   fails_at = None\<rparr>"

definition short_stay_no_bedrooms :: args where
  "short_stay_no_bedrooms =
     [(''start_date'', ''2025-10-20''), (''end_date'', ''2025-10-22''), (''num_bedrooms'', ''0'')]"

definition short_stay :: args where
  "short_stay =
     [(''start_date'', ''2025-10-20''), (''end_date'', ''2025-10-22''), (''num_bedrooms'', ''2'')]"

definition long_stay :: args where
  "long_stay =
     [(''start_date'', ''2025-10-20''), (''end_date'', ''2025-11-15''), (''num_bedrooms'', ''1'')]"

definition bad_month :: args where
  "bad_month =
     [(''start_date'', ''2025-13-01''), (''end_date'', ''2025-11-15''), (''num_bedrooms'', ''1'')]"

definition no_start_date :: args where
  "no_start_date = [(''end_date'', ''2025-11-15''), (''num_bedrooms'', ''1'')]"

definition zero_bedrooms :: args where
  "zero_bedrooms =
     [(''start_date'', ''2025-10-20''), (''end_date'', ''2025-11-15''), (''num_bedrooms'', ''0'')]"


definition apto :: property where
  "apto = \<lparr>p_id = 1, p_name = ''Apto 101'', p_description = ''Centro'', p_num_bedrooms = 1,
            p_min_stay_nights = 4, p_pricing_category = ''std''\<rparr>"

definition nightly_80000 :: pricing_rule where
  "nightly_80000 = \<lparr>pr_category = ''std'', pr_price_per_night = Some 80000,
      pr_monthly_rate = None, pr_min_nights = 4, pr_max_nights = 60\<rparr>"

definition monthly_900000 :: pricing_rule where
  "monthly_900000 = \<lparr>pr_category = ''std'', pr_price_per_night = None,
      pr_monthly_rate = Some 900000, pr_min_nights = 30, pr_max_nights = 365\<rparr>"

definition nightly_cent :: pricing_rule where
  "nightly_cent = \<lparr>pr_category = ''std'', pr_price_per_night = Some (1 / 100),
      pr_monthly_rate = None, pr_min_nights = 4, pr_max_nights = 29\<rparr>"

definition october_booking :: booking where
  "october_booking =
     \<lparr>b_property_id = 1, b_start_date = Date 2025 10 10, b_end_date = Date 2025 10 20\<rparr>"

definition booked_db :: database where
  "booked_db =
     \<lparr>properties = [apto], pricing_rules = [nightly_80000], bookings = [october_booking]\<rparr>"

definition cent_db :: database where
  "cent_db = \<lparr>properties = [apto], pricing_rules = [nightly_cent], bookings = []\<rparr>"

definition two_rule_db :: database where
  "two_rule_db =
     \<lparr>properties = [apto], pricing_rules = [nightly_80000, monthly_900000], bookings = []\<rparr>"

definition no_rule_db :: database where
  "no_rule_db = \<lparr>properties = [apto], pricing_rules = [], bookings = []\<rparr>"

definition nightly_unpriced :: pricing_rule where
  "nightly_unpriced = \<lparr>pr_category = ''std'', pr_price_per_night = None,
      pr_monthly_rate = None, pr_min_nights = 4, pr_max_nights = 60\<rparr>"

definition unpriced_rule_db :: database where
  "unpriced_rule_db =
     \<lparr>properties = [apto], pricing_rules = [nightly_unpriced, nightly_80000], bookings = []\<rparr>"

definition space_day_stay :: args where
  "space_day_stay =
     [(''start_date'', ''2025-10-20''), (''end_date'', ''2025-11- 5''), (''num_bedrooms'', ''1'')]"

definition overlapping_stay :: args where
  "overlapping_stay =
     [(''start_date'', ''2025-10-15''), (''end_date'', ''2025-10-25''), (''num_bedrooms'', ''1'')]"

definition touching_stay :: args where
  "touching_stay =
     [(''start_date'', ''2025-10-20''), (''end_date'', ''2025-10-30''), (''num_bedrooms'', ''1'')]"

definition five_week_stay :: args where
  "five_week_stay =
     [(''start_date'', ''2025-10-20''), (''end_date'', ''2025-11-24''), (''num_bedrooms'', ''1'')]"

definition apto_entry :: "decimal option \<Rightarrow> int \<Rightarrow> entry" where
  "apto_entry m t =
     \<lparr>property_id = 1, name = ''Apto 101'', description = ''Centro'',
      monthly_rate_field = map_option Finite m, total_price_field = Finite (of_int t)\<rparr>"

definition all_calls :: "db_call list" where
  "all_calls = [Connect, Cursor, Execute, Fetchall, Cursor_close, Conn_close]"

section \<open>Properties of the handler\<close>

subsection \<open>Helper facts\<close>

lemma strptime_ymd_empty: "strptime_ymd [] = Inl ValueError"
  by (simp add: strptime_ymd_def)

lemma strptime_ymd_error: "strptime_ymd s = Inl x \<Longrightarrow> x = ValueError"
  by (auto simp add: strptime_ymd_def make_date_def Let_def split: if_splits option.splits)

text \<open>Facts about rounding: the digit count, the exponent of the leading digit, and that
  \<open>round_sig\<close> yields the nearest value with ties to even.\<close>

lemma ilog_bounds:
  "2 \<le> b \<Longrightarrow> 1 \<le> n \<Longrightarrow>
     0 \<le> ilog b n \<and> b ^ nat (ilog b n) \<le> n \<and> n < b * b ^ nat (ilog b n)"
proof (induction b n rule: ilog.induct)
  case (1 b n)
  show ?case
  proof (cases "n < b")
    case True
    with "1.prems" show ?thesis by (simp add: ilog.simps [of b n])
  next
    case False
    with "1.prems" have nb: "\<not> (n < b \<or> b < 2)" by simp
    from False "1.prems" have "0 < n div b"
      by (simp add: pos_imp_zdiv_pos_iff)
    then have d: "1 \<le> n div b" by simp
    define k where "k = nat (ilog b (n div b))"
    from "1.IH" [OF nb "1.prems"(1) d] have ih: "0 \<le> ilog b (n div b)"
      "b ^ k \<le> n div b" "n div b < b * b ^ k" by (simp_all add: k_def)
    have s: "ilog b n = 1 + ilog b (n div b)"
      using nb by (simp add: ilog.simps [of b n])
    have p: "nat (ilog b n) = Suc k"
      using ih(1) s by (simp add: k_def)
    have bpos: "0 < b" using "1.prems" by simp
    have n: "n = b * (n div b) + n mod b" by simp
    have m: "0 \<le> n mod b" "n mod b < b" using bpos by simp_all
    have "b * b ^ k \<le> b * (n div b)"
      using ih(2) bpos by (simp add: mult_left_mono)
    with n m have lo: "b * b ^ k \<le> n" by linarith
    have "n div b + 1 \<le> b * b ^ k" using ih(3) by simp
    then have "b * (n div b + 1) \<le> b * (b * b ^ k)"
      using bpos by (simp add: mult_left_mono)
    then have "b * (n div b) + b \<le> b * (b * b ^ k)"
      by (simp add: algebra_simps)
    with n m have hi: "n < b * (b * b ^ k)" by linarith
    from lo hi ih(1) s p show ?thesis by simp
  qed
qed

lemma ilog_bounds_rat:
  assumes "2 \<le> b" and "1 \<le> n"
  shows "rat_of_int b powi (ilog b n) \<le> of_int n"
    and "rat_of_int n < of_int b powi (ilog b n + 1)"
    and "0 \<le> ilog b n"
proof -
  from ilog_bounds [OF assms] have b: "0 \<le> ilog b n" "b ^ nat (ilog b n) \<le> n"
    "n < b * b ^ nat (ilog b n)" by blast+
  show "0 \<le> ilog b n" by (rule b(1))
  have "rat_of_int b powi (ilog b n) = of_int (b ^ nat (ilog b n))"
    using b(1) by (simp add: power_int_nonneg_exp)
  also have "\<dots> \<le> of_int n" using b(2) by (simp only: of_int_le_iff)
  finally show "rat_of_int b powi (ilog b n) \<le> of_int n" .
  have "rat_of_int n < of_int (b * b ^ nat (ilog b n))"
    using b(3) by (simp only: of_int_less_iff)
  also have "\<dots> = of_int b powi (ilog b n + 1)"
    using b(1) by (simp add: power_int_nonneg_exp nat_add_distrib)
  finally show "rat_of_int n < of_int b powi (ilog b n + 1)" .
qed

lemma adjusted_bounds:
  assumes b: "2 \<le> b" and x: "x \<noteq> 0"
  shows "rat_of_int b powi (adjusted b x) \<le> \<bar>x\<bar>"
    and "\<bar>x\<bar> < rat_of_int b powi (adjusted b x + 1)"
proof -
  define B where "B = rat_of_int b"
  have B: "0 < B" "B \<noteq> 0" using b by (simp_all add: B_def)
  obtain p q where pq: "quotient_of \<bar>x\<bar> = (p, q)" by (cases "quotient_of \<bar>x\<bar>")
  from pq have q: "0 < q" by (rule quotient_of_denom_pos)
  from pq have ax: "\<bar>x\<bar> = of_int p / of_int q" by (rule quotient_of_div)
  have "0 < \<bar>x\<bar>" using x by simp
  with ax q have "0 < rat_of_int p" by (simp add: zero_less_divide_iff)
  then have p: "1 \<le> p" by simp
  from q have q1: "1 \<le> q" by simp
  define d where "d = ilog b p - ilog b q"
  note P = ilog_bounds_rat [OF b p, folded B_def]
  note Q = ilog_bounds_rat [OF b q1, folded B_def]
  have Qpos: "0 < rat_of_int q" using q by simp
  have Ppos: "0 < rat_of_int p" using p by simp
  have up: "\<bar>x\<bar> < B powi (d + 1)"
  proof -
    have "rat_of_int p / of_int q < B powi (ilog b p + 1) / B powi (ilog b q)"
      by (rule frac_less) (use P Q B Ppos in simp_all)
    also have "\<dots> = B powi (ilog b p + 1 - ilog b q)"
      using B by (simp add: power_int_diff)
    also have "ilog b p + 1 - ilog b q = d + 1" by (simp add: d_def)
    finally show ?thesis by (simp only: ax)
  qed
  have lo: "B powi (d - 1) < \<bar>x\<bar>"
  proof -
    have "B powi (ilog b p) / B powi (ilog b q + 1) < rat_of_int p / of_int q"
      by (rule frac_less2) (use P Q B Qpos in simp_all)
    moreover have "B powi (ilog b p) / B powi (ilog b q + 1) = B powi (ilog b p - (ilog b q + 1))"
      using B by (simp add: power_int_diff)
    moreover have "ilog b p - (ilog b q + 1) = d - 1" by (simp add: d_def)
    ultimately show ?thesis by (simp only: ax)
  qed
  have a: "adjusted b x = (if B powi d \<le> \<bar>x\<bar> then d else d - 1)"
    by (simp add: adjusted_def pq d_def B_def Let_def)
  show "rat_of_int b powi (adjusted b x) \<le> \<bar>x\<bar>"
    using lo by (simp add: a B_def [symmetric])
  show "\<bar>x\<bar> < rat_of_int b powi (adjusted b x + 1)"
    using up by (auto simp add: a B_def [symmetric])
qed

lemma round_half_even_of_int: "round_half_even (of_int k) = k"
  by (simp add: round_half_even_def)

lemma round_half_even_cases:
  obtains (down) "round_half_even y = \<lfloor>y\<rfloor>" and "y - of_int \<lfloor>y\<rfloor> \<le> 1 / 2"
      and "y - of_int \<lfloor>y\<rfloor> = 1 / 2 \<longrightarrow> even \<lfloor>y\<rfloor>"
  | (up) "round_half_even y = \<lfloor>y\<rfloor> + 1" and "1 / 2 \<le> y - of_int \<lfloor>y\<rfloor>"
      and "y - of_int \<lfloor>y\<rfloor> = 1 / 2 \<longrightarrow> odd \<lfloor>y\<rfloor>"
proof (cases "y - of_int \<lfloor>y\<rfloor> < 1 / 2")
  case True
  then have "round_half_even y = \<lfloor>y\<rfloor>" by (simp add: round_half_even_def Let_def)
  with True show ?thesis by (intro down) simp_all
next
  case False
  show ?thesis
  proof (cases "1 / 2 < y - of_int \<lfloor>y\<rfloor>")
    case True
    with False have "round_half_even y = \<lfloor>y\<rfloor> + 1"
      by (simp add: round_half_even_def Let_def)
    with True show ?thesis by (intro up) simp_all
  next
    case F: False
    with False have eq: "y - of_int \<lfloor>y\<rfloor> = 1 / 2" by simp
    show ?thesis
    proof (cases "even \<lfloor>y\<rfloor>")
      case True
      with False F have "round_half_even y = \<lfloor>y\<rfloor>"
        by (simp add: round_half_even_def Let_def)
      with True eq show ?thesis by (intro down) simp_all
    next
      case O: False
      with False F have "round_half_even y = \<lfloor>y\<rfloor> + 1"
        by (simp add: round_half_even_def Let_def)
      with O eq show ?thesis by (intro up) simp_all
    qed
  qed
qed

lemma round_half_even_near: "\<bar>of_int (round_half_even y) - y\<bar> \<le> 1 / 2"
proof -
  have f: "of_int \<lfloor>y\<rfloor> \<le> y" "y < of_int \<lfloor>y\<rfloor> + 1" by linarith+
  show ?thesis
  proof (cases y rule: round_half_even_cases)
    case down
    with f show ?thesis by simp
  next
    case up
    with f show ?thesis by simp
  qed
qed

lemma round_half_even_tie:
  assumes "\<bar>of_int (round_half_even y) - y\<bar> = 1 / 2"
  shows "even (round_half_even y)"
proof -
  have f: "of_int \<lfloor>y\<rfloor> \<le> y" "y < of_int \<lfloor>y\<rfloor> + 1" by linarith+
  show ?thesis
  proof (cases y rule: round_half_even_cases)
    case down
    with f assms have "y - of_int \<lfloor>y\<rfloor> = 1 / 2" by simp
    with down show ?thesis by simp
  next
    case up
    with f assms have "y - of_int \<lfloor>y\<rfloor> = 1 / 2" by simp
    with up show ?thesis by simp
  qed
qed

lemma round_half_even_ge: "of_int k \<le> y \<Longrightarrow> k \<le> round_half_even y"
proof -
  assume "of_int k \<le> y"
  then have "k \<le> \<lfloor>y\<rfloor>" by (simp add: le_floor_iff)
  then show ?thesis by (auto simp add: round_half_even_def Let_def)
qed

lemma round_sig_nearest:
  assumes "2 \<le> b"
  shows "nearest_sig b p x (round_sig b p x)"
proof (cases "x = 0")
  case True
  then show ?thesis by (simp add: nearest_sig_def round_sig_def)
next
  case False
  define B where "B = rat_of_int b"
  have B: "0 < B" "B \<noteq> 0" using assms by (simp_all add: B_def)
  define a where "a = adjusted b x"
  define e where "e = a - (p - 1)"
  define c where "c = round_half_even (x / B powi e)"
  have E: "0 < B powi e" using B by simp
  from adjusted_bounds [OF assms False] have ab: "B powi a \<le> \<bar>x\<bar>" "\<bar>x\<bar> < B powi (a + 1)"
    by (simp_all add: a_def B_def)
  have "B powi a / B powi e \<le> \<bar>x\<bar> / B powi e"
    using ab(1) E by (simp add: divide_right_mono)
  moreover have "B powi a / B powi e = B powi (a - e)" using B by (simp add: power_int_diff)
  moreover have "a - e = p - 1" by (simp add: e_def)
  ultimately have lo: "B powi (p - 1) \<le> \<bar>x\<bar> / B powi e" by simp
  have "\<bar>x\<bar> / B powi e < B powi (a + 1) / B powi e"
    using ab(2) E by (simp add: divide_strict_right_mono)
  moreover have "B powi (a + 1) / B powi e = B powi (a + 1 - e)"
    using B by (simp add: power_int_diff)
  moreover have "a + 1 - e = p" by (simp add: e_def)
  ultimately have hi: "\<bar>x\<bar> / B powi e < B powi p" by simp
  have r: "round_sig b p x = of_int c * B powi e"
    using False by (simp add: round_sig_def Let_def c_def e_def a_def B_def)
  have n: "\<bar>of_int c - x / B powi e\<bar> \<le> 1 / 2"
    unfolding c_def by (rule round_half_even_near)
  have t: "\<bar>of_int c - x / B powi e\<bar> = 1 / 2 \<longrightarrow> even c"
    unfolding c_def using round_half_even_tie by blast
  from lo hi n t r show ?thesis
    unfolding nearest_sig_def B_def by blast
qed

lemma adjusted_of_int:
  assumes "2 \<le> b" and "z \<noteq> 0"
  shows "adjusted b (of_int z) = ilog b \<bar>z\<bar>"
proof -
  have a: "\<bar>rat_of_int z\<bar> = rat_of_int \<bar>z\<bar>" by simp
  have q: "quotient_of \<bar>rat_of_int z\<bar> = (\<bar>z\<bar>, 1)"
    by (simp only: a quotient_of_rat_of_int)
  have one: "ilog b 1 = 0" using assms(1) by (simp add: ilog.simps [of b 1])
  from assms(2) have z: "1 \<le> \<bar>z\<bar>" by simp
  have "rat_of_int b powi (ilog b \<bar>z\<bar>) \<le> \<bar>rat_of_int z\<bar>"
    using ilog_bounds_rat(1) [OF assms(1) z] by (simp only: a)
  then show ?thesis by (simp add: adjusted_def q one)
qed

lemma round_sig_of_int:
  assumes b: "2 \<le> b" and p: "1 \<le> p" and z: "\<bar>z\<bar> < b ^ nat p"
  shows "round_sig b p (of_int z) = of_int z"
proof (cases "z = 0")
  case True
  then show ?thesis by (simp add: round_sig_def)
next
  case False
  then have z1: "1 \<le> \<bar>z\<bar>" by simp
  define B where "B = rat_of_int b"
  have B: "0 < B" "B \<noteq> 0" using b by (simp_all add: B_def)
  define d where "d = ilog b \<bar>z\<bar>"
  from ilog_bounds [OF b z1] have db: "0 \<le> d" "b ^ nat d \<le> \<bar>z\<bar>" by (simp_all add: d_def)
  from db(2) z have "b ^ nat d < b ^ nat p" by (rule le_less_trans)
  then have "nat d < nat p" using b by (simp add: power_strict_increasing_iff)
  then have e0: "d - (p - 1) \<le> 0" by simp
  define k where "k = nat (- (d - (p - 1)))"
  have e: "d - (p - 1) = - int k" using e0 by (simp add: k_def)
  have a: "adjusted b (rat_of_int z) = d"
    unfolding d_def using b False by (rule adjusted_of_int)
  have pw: "B powi (d - (p - 1)) = 1 / B ^ k"
    by (simp only: e power_int_minus_divide power_int_of_nat)
  have "rat_of_int z / (1 / B ^ k) = of_int (z * b ^ k)" by (simp add: B_def)
  then have r: "round_half_even (rat_of_int z / (1 / B ^ k)) = z * b ^ k"
    by (simp only: round_half_even_of_int)
  have "round_sig b p (rat_of_int z)
      = of_int (round_half_even (of_int z / B powi (d - (p - 1)))) * B powi (d - (p - 1))"
    using False by (simp add: round_sig_def Let_def a B_def)
  also have "\<dots> = of_int (z * b ^ k) * (1 / B ^ k)"
    by (simp only: pw r)
  also have "\<dots> = of_int z" using B by (simp add: B_def)
  finally show ?thesis .
qed

lemma round_sig_int_valued:
  assumes b: "2 \<le> b" and p: "1 \<le> p" and z: "1 \<le> z"
  shows "\<exists>k. 1 \<le> k \<and> round_sig b p (of_int z) = of_int k"
proof (cases "z < b ^ nat p")
  case True
  with z have "\<bar>z\<bar> < b ^ nat p" by simp
  from round_sig_of_int [OF b p this] z show ?thesis by blast
next
  case False
  define B where "B = rat_of_int b"
  have B: "0 < B" "B \<noteq> 0" "1 \<le> B" using b by (simp_all add: B_def)
  from z have z0: "z \<noteq> 0" and az: "\<bar>z\<bar> = z" by simp_all
  define d where "d = ilog b z"
  from ilog_bounds [OF b z] have db: "0 \<le> d" "b ^ nat d \<le> z" "z < b * b ^ nat d"
    by (simp_all add: d_def)
  from False db(3) have "b ^ nat p < b ^ Suc (nat d)" by simp
  then have "nat p < Suc (nat d)" using b by (simp only: power_strict_increasing_iff)
  with db(1) p have pd: "p \<le> d" by simp
  define e where "e = d - (p - 1)"
  have e1: "1 \<le> e" using pd by (simp add: e_def)
  have a: "adjusted b (rat_of_int z) = d"
    using adjusted_of_int [OF b z0] by (simp add: d_def az)
  have pe: "B powi e = of_int (b ^ nat e)"
    using e1 by (simp add: power_int_nonneg_exp B_def)
  define c where "c = round_half_even (rat_of_int z / B powi e)"
  have E: "0 < B powi e" using B by simp
  have "B powi d \<le> rat_of_int z"
    using ilog_bounds_rat(1) [OF b z] by (simp add: d_def B_def)
  then have "B powi d / B powi e \<le> rat_of_int z / B powi e"
    using E by (simp add: divide_right_mono)
  moreover have "B powi d / B powi e = B powi (d - e)" using B by (simp add: power_int_diff)
  moreover have "d - e = p - 1" by (simp add: e_def)
  moreover have "1 \<le> B powi (p - 1)" using B p by simp
  ultimately have "rat_of_int 1 \<le> rat_of_int z / B powi e" by simp
  then have c1: "1 \<le> c" unfolding c_def by (rule round_half_even_ge)
  have "round_sig b p (rat_of_int z) = of_int c * B powi e"
    using z0 by (simp add: round_sig_def Let_def a c_def e_def B_def)
  also have "\<dots> = of_int (c * b ^ nat e)" by (simp add: pe)
  finally have r: "round_sig b p (rat_of_int z) = of_int (c * b ^ nat e)" .
  have "1 \<le> b ^ nat e" using b by simp
  with c1 have "1 * 1 \<le> c * b ^ nat e" by (intro mult_mono) simp_all
  with r show ?thesis by auto
qed

lemma float_of_small_int:
  assumes "1 \<le> z" and "z < 10 ^ 28"
  shows "float_of_decimal (of_int z) = Finite (round_sig 2 53 (of_int z))"
proof -
  from assms have z0: "z \<noteq> 0" and az: "\<bar>z\<bar> = z" by simp_all
  define d where "d = ilog 2 z"
  from ilog_bounds [of 2 z] assms have db: "0 \<le> d" "2 ^ nat d \<le> z" by (simp_all add: d_def)
  have "(10::int) ^ 28 < 2 ^ 94" by simp
  with db(2) assms(2) have "(2::int) ^ nat d < 2 ^ 94" by linarith
  then have "nat d < 94" by (simp only: power_strict_increasing_iff)
  with db(1) have d: "0 \<le> d" "d < 1023" by simp_all
  have a: "adjusted 2 (rat_of_int z) = d"
    using adjusted_of_int [of 2 z] z0 by (simp add: d_def az)
  show ?thesis using z0 d by (simp add: float_of_decimal_def a Let_def)
qed

lemma float_of_rounded_total:
  assumes "0 \<le> z" and "z < 10 ^ 28"
  shows "\<exists>v. float_of_decimal (of_int z) = Finite (of_int v)
           \<and> nearest_sig 2 53 (of_int z) (of_int v)
           \<and> (z = 0 \<longrightarrow> v = 0) \<and> (1 \<le> z \<longrightarrow> 1 \<le> v) \<and> (z < 2 ^ 53 \<longrightarrow> v = z)"
proof (cases "z = 0")
  case True
  then show ?thesis by (auto simp add: float_of_decimal_def nearest_sig_def)
next
  case False
  with assms have z: "1 \<le> z" by simp
  from round_sig_int_valued [of 2 53 z] z obtain k where
    k: "1 \<le> k" "round_sig 2 53 (of_int z) = of_int k" by auto
  have f: "float_of_decimal (of_int z) = Finite (of_int k)"
    using float_of_small_int [OF z assms(2)] k by simp
  have n: "nearest_sig 2 53 (of_int z) (of_int k)"
    using round_sig_nearest [of 2 53 "of_int z"] k by simp
  have "z < 2 ^ 53 \<longrightarrow> k = z"
  proof
    assume "z < 2 ^ 53"
    with z have "\<bar>z\<bar> < 2 ^ nat 53" by simp
    from round_sig_of_int [OF _ _ this] k show "k = z" by simp
  qed
  with f n k False show ?thesis by auto
qed

lemma ctx_round_nearest: "nearest_sig 10 28 x (ctx_round x)"
  unfolding ctx_round_def by (rule round_sig_nearest) simp

text \<open>Whole numbers of fewer than 29 digits are exact in the context.\<close>

lemma exact_in_context_of_int:
  assumes "\<bar>z\<bar> < 10 ^ 28"
  shows "exact_in_context (of_int z)"
  using round_sig_of_int [of 10 28 z] assms by (simp add: exact_in_context_def ctx_round_def)

lemma sql_and_True: "sql_and a b = Some True \<longleftrightarrow> a = Some True \<and> b = Some True"
  by (cases "(a, b)" rule: sql_and.cases) auto

lemma sql_or_True: "sql_or a b = Some True \<longleftrightarrow> a = Some True \<or> b = Some True"
  by (cases "(a, b)" rule: sql_or.cases) auto

lemma where_clause_True:
  "where_clause db nb n e s (p, pr) = Some True \<longleftrightarrow>
     p_num_bedrooms p = nb \<and> p_min_stay_nights p \<le> n
     \<and> (nightly_rule n pr = Some True \<or> monthly_rule n pr = Some True)
     \<and> p_id p \<notin> set (booked_property_ids (bookings db) e s)"
  by (simp add: where_clause_def sql_and_True sql_or_True not_booked_def)

text \<open>On the \<^verbatim>\<open>NULL\<close> row of the outer join neither rule branch is true: the
  comparisons with \<^verbatim>\<open>pr.min_nights\<close> are unknown.\<close>

lemma rule_needs_row: "nightly_rule n None \<noteq> Some True" "monthly_rule n None \<noteq> Some True"
  by (simp_all add: nightly_rule_def monthly_rule_def sql_and_True sql_le_def
      col_min_nights_def col_max_nights_def col_monthly_rate_def)

lemma price_row_Some:
  assumes "price_row n (i, nm, d, ppn, mr) = Inr (Some e)"
  shows "0 < total_price n ppn mr \<and> \<lfloor>total_price n ppn mr + 1 / 2\<rfloor> < 10 ^ 28
       \<and> total_price_field e = float_of_decimal (of_int \<lfloor>total_price n ppn mr + 1 / 2\<rfloor>)"
  using assms
  by (auto simp add: price_row_def Let_def quantize_half_up_def round_half_up_def
      split: if_splits)

lemma total_price_monthly:
  assumes "30 \<le> n" and "mr = Some m"
  shows "total_price n ppn mr =
           (if 0 < n mod 30
            then ctx_round (ctx_round (of_int (n div 30) * m)
                            + ctx_round (of_int (n mod 30) * ctx_round (m / 30)))
            else ctx_round (of_int (n div 30) * m))"
  using assms
  by (simp add: total_price_def Let_def dec_mul_def dec_add_def dec_div_def)

lemma total_price_nightly:
  assumes "n < 30 \<or> mr = None" and "ppn = Some p"
  shows "total_price n ppn mr = ctx_round (of_int n * p)"
  using assms by (auto simp add: total_price_def dec_mul_def)

lemma total_price_no_rate:
  assumes "n < 30 \<or> mr = None" and "ppn = None"
  shows "total_price n ppn mr = 0"
  using assms by (auto simp add: total_price_def)

lemma price_rows_member:
  "price_rows n rows = Inr es \<Longrightarrow> e \<in> set es \<Longrightarrow>
     \<exists>row \<in> set rows. price_row n row = Inr (Some e)"
proof (induction rows arbitrary: es)
  case Nil
  then show ?case by simp
next
  case (Cons r rows)
  then show ?case
    by (auto split: sum.splits option.splits)
qed

subsection \<open>The price before rounding\<close>

text \<open>
  C1, as stated, fails: the division by \<^verbatim>\<open>Decimal('30')\<close> is rounded to 28 significant
  digits. For 51 nights at a monthly rate of 325 the handler computes
  552.4999999999999999999999999 where the exact formula gives 552.5.
\<close>

theorem total_price_division_not_exact:
  "total_price 51 None (Some 325) = 5524999999999999999999999999 / 10 ^ 25
   \<and> total_price 51 None (Some 325)
       \<noteq> of_int (51 div 30) * 325 + of_int (51 mod 30) * (325 / 30)"
  by code_simp

text \<open>
  C1, amended: for a stay of at least 4 nights the total follows the decision tree in
  priority order, with every \<^verbatim>\<open>Decimal\<close> operation rounded to the nearest value of
  28 significant digits, ties to even (written \<open>rnd\<close> here). If \<open>n \<ge> 30\<close> and
  \<open>monthly_rate\<close> is present the total is
  \<open>rnd (rnd ((n div 30) * monthly_rate) + rnd ((n mod 30) * rnd (monthly_rate / 30)))\<close>
  when \<open>n mod 30 > 0\<close> and \<open>rnd ((n div 30) * monthly_rate)\<close> otherwise; else, if
  \<open>price_per_night\<close> is present, it is \<open>rnd (n * price_per_night)\<close>; else it is 0.
  Where the values formed have at most 28 significant digits the roundings change
  nothing, and the total is \<open>(n div 30) * monthly_rate + (n mod 30) * (monthly_rate / 30)\<close>,
  respectively \<open>n * price_per_night\<close>.
\<close>

theorem total_price_decision_tree:
  assumes "4 \<le> n"
  shows "(30 \<le> n \<and> mr = Some m
          \<longrightarrow> total_price n ppn mr =
                (if 0 < n mod 30
                 then ctx_round (ctx_round (of_int (n div 30) * m)
                                 + ctx_round (of_int (n mod 30) * ctx_round (m / 30)))
                 else ctx_round (of_int (n div 30) * m)))
       \<and> ((n < 30 \<or> mr = None) \<and> ppn = Some p
          \<longrightarrow> total_price n ppn mr = ctx_round (of_int n * p))
       \<and> ((n < 30 \<or> mr = None) \<and> ppn = None \<longrightarrow> total_price n ppn mr = 0)
       \<and> (\<forall>x. nearest_sig 10 28 x (ctx_round x))
       \<and> (30 \<le> n \<and> mr = Some m
            \<and> exact_in_context (of_int (n div 30) * m)
            \<and> (0 < n mod 30 \<longrightarrow>
                  exact_in_context (m / 30)
                  \<and> exact_in_context (of_int (n mod 30) * (m / 30))
                  \<and> exact_in_context (of_int (n div 30) * m + of_int (n mod 30) * (m / 30)))
          \<longrightarrow> total_price n ppn mr = of_int (n div 30) * m + of_int (n mod 30) * (m / 30))
       \<and> ((n < 30 \<or> mr = None) \<and> ppn = Some p \<and> exact_in_context (of_int n * p)
          \<longrightarrow> total_price n ppn mr = of_int n * p)"
proof (intro conjI impI allI)
  assume "30 \<le> n \<and> mr = Some m"
  then show "total_price n ppn mr =
                (if 0 < n mod 30
                 then ctx_round (ctx_round (of_int (n div 30) * m)
                                 + ctx_round (of_int (n mod 30) * ctx_round (m / 30)))
                 else ctx_round (of_int (n div 30) * m))"
    using total_price_monthly by blast
next
  assume "(n < 30 \<or> mr = None) \<and> ppn = Some p"
  then show "total_price n ppn mr = ctx_round (of_int n * p)"
    using total_price_nightly by blast
next
  assume "(n < 30 \<or> mr = None) \<and> ppn = None"
  then show "total_price n ppn mr = 0"
    using total_price_no_rate by blast
next
  fix x
  show "nearest_sig 10 28 x (ctx_round x)" by (rule ctx_round_nearest)
next
  assume h: "30 \<le> n \<and> mr = Some m
            \<and> exact_in_context (of_int (n div 30) * m)
            \<and> (0 < n mod 30 \<longrightarrow>
                  exact_in_context (m / 30)
                  \<and> exact_in_context (of_int (n mod 30) * (m / 30))
                  \<and> exact_in_context (of_int (n div 30) * m + of_int (n mod 30) * (m / 30)))"
  from h have mr: "mr = Some m" and n: "30 \<le> n" by blast+
  from h have a: "ctx_round (of_int (n div 30) * m) = of_int (n div 30) * m"
    unfolding exact_in_context_def by blast
  note tp = total_price_monthly [OF n mr, of ppn]
  show "total_price n ppn mr = of_int (n div 30) * m + of_int (n mod 30) * (m / 30)"
  proof (cases "0 < n mod 30")
    case True
    from h True have b: "ctx_round (m / 30) = m / 30"
      and c: "ctx_round (of_int (n mod 30) * (m / 30)) = of_int (n mod 30) * (m / 30)"
      and d: "ctx_round (of_int (n div 30) * m + of_int (n mod 30) * (m / 30))
                = of_int (n div 30) * m + of_int (n mod 30) * (m / 30)"
      unfolding exact_in_context_def by blast+
    from tp True have "total_price n ppn mr =
            ctx_round (ctx_round (of_int (n div 30) * m)
                       + ctx_round (of_int (n mod 30) * ctx_round (m / 30)))"
      by simp
    also have "\<dots> = of_int (n div 30) * m + of_int (n mod 30) * (m / 30)"
      by (simp only: a b c d)
    finally show ?thesis .
  next
    case False
    then have z: "n mod 30 = 0" by presburger
    from tp z have "total_price n ppn mr = ctx_round (of_int (n div 30) * m)" by simp
    with a z show ?thesis by simp
  qed
next
  assume h: "(n < 30 \<or> mr = None) \<and> ppn = Some p \<and> exact_in_context (of_int n * p)"
  then have "total_price n ppn mr = ctx_round (of_int n * p)"
    using total_price_nightly by blast
  with h show "total_price n ppn mr = of_int n * p"
    by (simp add: exact_in_context_def)
qed

text \<open>The two checks of the specification (35 nights at 900000 a month, 10 nights at
  80000 a night), and 35 nights at 1000000 a month, where three of the four operations
  round.\<close>

theorem total_price_decision_tree_witness:
  "total_price 35 None (Some 900000) = 1050000
   \<and> total_price 10 (Some 80000) None = 800000
   \<and> total_price 10 None None = 0
   \<and> total_price 35 None (Some 1000000) = 1166666666666666666666666667 / 10 ^ 21"
proof -
  have e: "exact_in_context (of_int (35 div 30) * 900000)"
    "0 < (35::int) mod 30 \<longrightarrow> exact_in_context (900000 / 30)
       \<and> exact_in_context (of_int (35 mod 30) * (900000 / 30))
       \<and> exact_in_context (of_int (35 div 30) * 900000 + of_int (35 mod 30) * (900000 / 30))"
    "exact_in_context (of_int 10 * 80000)"
    by code_simp+
  have v: "(if 0 < (35::int) mod 30
            then ctx_round (ctx_round (of_int (35 div 30) * 1000000)
                            + ctx_round (of_int (35 mod 30) * ctx_round (1000000 / 30)))
            else ctx_round (of_int (35 div 30) * 1000000))
           = 1166666666666666666666666667 / 10 ^ 21"
    by code_simp
  have n: "(4::int) \<le> 35" "(4::int) \<le> 10" "(30::int) \<le> 35" "(10::int) < 30" by simp_all
  from total_price_decision_tree [OF n(1), of "Some 900000" 900000 None 0] e n
  have a: "total_price 35 None (Some 900000)
             = of_int (35 div 30) * 900000 + of_int (35 mod 30) * (900000 / 30)"
    by blast
  from total_price_decision_tree [OF n(2), of None 0 "Some 80000" 80000] e n
  have b: "total_price 10 (Some 80000) None = of_int 10 * 80000"
    by blast
  from total_price_decision_tree [OF n(2), of None 0 None 0] n
  have c: "total_price 10 None None = 0"
    by blast
  from total_price_decision_tree [OF n(1), of "Some 1000000" 1000000 None 0] n
  have "total_price 35 None (Some 1000000)
          = (if 0 < (35::int) mod 30
            then ctx_round (ctx_round (of_int (35 div 30) * 1000000)
                            + ctx_round (of_int (35 mod 30) * ctx_round (1000000 / 30)))
            else ctx_round (of_int (35 div 30) * 1000000))"
    by blast
  with v have d: "total_price 35 None (Some 1000000) = 1166666666666666666666666667 / 10 ^ 21"
    by (simp only:)
  from a b c d show ?thesis by simp
qed

subsection \<open>Rounding\<close>




subsection \<open>Parameter validation and the short-stay rule\<close>

text \<open>
  C3, as stated, fails: a two-night request with valid dates and a bedroom count of 0 is
  answered with the missing-parameters error, not with an empty list.
\<close>

theorem short_stay_zero_bedrooms_is_rejected:
  "strptime_ymd ''2025-10-20'' = Inr (Date 2025 10 20)
   \<and> strptime_ymd ''2025-10-22'' = Inr (Date 2025 10 22)
   \<and> days_between (Date 2025 10 22) (Date 2025 10 20) = 2
   \<and> check_availability_and_price empty_store short_stay_no_bedrooms
       = (Missing_parameters, [])"
  by code_simp

text \<open>
  C3, amended: for every request with a bedroom count that parses to a non-zero integer
  and with valid start and end dates fewer than 4 nights apart, the handler returns the
  empty list as a successful response, whatever the data store holds, and makes no call
  on the data store.
\<close>

theorem short_stay_returns_empty_list:
  assumes "args_get a ''start_date'' = Some s" and "args_get a ''end_date'' = Some e"
    and "strptime_ymd s = Inr sd" and "strptime_ymd e = Inr ed"
    and "days_between ed sd < 4"
    and "args_get_int a ''num_bedrooms'' = Some b" and "b \<noteq> 0"
  shows "check_availability_and_price st a = (Results [], [])"
proof -
  have "s \<noteq> []" and "e \<noteq> []"
    using assms(3,4) strptime_ymd_empty by auto
  then show ?thesis
    using assms by (simp add: check_availability_and_price_def falsy_def Let_def)
qed

theorem short_stay_returns_empty_list_witness:
  "check_availability_and_price empty_store short_stay = (Results [], [])
   \<and> status_code (fst (check_availability_and_price empty_store short_stay)) = 200"
proof -
  have h: "args_get short_stay ''start_date'' = Some ''2025-10-20''"
    "args_get short_stay ''end_date'' = Some ''2025-10-22''"
    "strptime_ymd ''2025-10-20'' = Inr (Date 2025 10 20)"
    "strptime_ymd ''2025-10-22'' = Inr (Date 2025 10 22)"
    "days_between (Date 2025 10 22) (Date 2025 10 20) < 4"
    "args_get_int short_stay ''num_bedrooms'' = Some 2"
    by code_simp+
  have "check_availability_and_price empty_store short_stay = (Results [], [])"
    by (rule short_stay_returns_empty_list [OF h]) simp
  then show ?thesis by (simp add: status_code_def)
qed

text \<open>
  C10: a request whose \<^verbatim>\<open>num_bedrooms\<close> is absent, does not parse as an integer, or
  parses to 0 gets the missing-parameters response, and no call is made on the data
  store; dates are not looked at.
\<close>

theorem zero_or_unparsable_bedrooms_is_missing_parameter:
  assumes "case args_get a ''num_bedrooms'' of None \<Rightarrow> True
           | Some s \<Rightarrow> py_int s = None \<or> py_int s = Some 0"
  shows "check_availability_and_price st a = (Missing_parameters, [])"
  using assms
  by (auto simp add: check_availability_and_price_def args_get_int_def Let_def
      split: option.splits)

theorem zero_or_unparsable_bedrooms_is_missing_parameter_witness:
  "args_get zero_bedrooms ''num_bedrooms'' = Some ''0''
   \<and> py_int ''0'' = Some 0
   \<and> check_availability_and_price empty_store zero_bedrooms = (Missing_parameters, [])"
proof -
  have g: "args_get zero_bedrooms ''num_bedrooms'' = Some ''0''" and i: "py_int ''0'' = Some 0"
    by code_simp+
  then have "case args_get zero_bedrooms ''num_bedrooms'' of None \<Rightarrow> True
           | Some s \<Rightarrow> py_int s = None \<or> py_int s = Some 0"
    by simp
  from zero_or_unparsable_bedrooms_is_missing_parameter [OF this] g i
  show ?thesis by simp
qed

text \<open>
  C6, as stated, fails: a malformed date is not answered with the client error.
  \<^verbatim>\<open>strptime\<close> raises inside the \<^verbatim>\<open>try\<close> block, and the handler for every
  exception answers with the server error.
\<close>

theorem malformed_date_is_server_error:
  "strptime_ymd ''2025-13-01'' = Inl ValueError
   \<and> check_availability_and_price empty_store bad_month = (Server_error ValueError, [])
   \<and> status_code (Server_error ValueError) = 500"
  by code_simp

text \<open>
  C6, amended: a request in which \<^verbatim>\<open>start_date\<close> or \<^verbatim>\<open>end_date\<close> is missing or
  empty gets the missing-parameters client error; a request with both dates and a
  non-zero bedroom count in which one of the dates does not parse gets the server error
  carrying the \<^verbatim>\<open>ValueError\<close>. In both cases no call is made on the data store.
\<close>

theorem date_errors_before_data_store:
  "(falsy (args_get a ''start_date'') \<or> falsy (args_get a ''end_date'')
      \<longrightarrow> check_availability_and_price st a = (Missing_parameters, []))
   \<and> (args_get a ''start_date'' = Some s \<and> s \<noteq> [] \<and> args_get a ''end_date'' = Some e \<and> e \<noteq> []
        \<and> args_get_int a ''num_bedrooms'' = Some b \<and> b \<noteq> 0
        \<and> (isl (strptime_ymd s) \<or> isl (strptime_ymd e))
      \<longrightarrow> check_availability_and_price st a = (Server_error ValueError, []))"
proof (intro conjI impI)
  assume "falsy (args_get a ''start_date'') \<or> falsy (args_get a ''end_date'')"
  then show "check_availability_and_price st a = (Missing_parameters, [])"
    by (auto simp add: check_availability_and_price_def Let_def)
next
  assume h: "args_get a ''start_date'' = Some s \<and> s \<noteq> [] \<and> args_get a ''end_date'' = Some e \<and> e \<noteq> []
        \<and> args_get_int a ''num_bedrooms'' = Some b \<and> b \<noteq> 0
        \<and> (isl (strptime_ymd s) \<or> isl (strptime_ymd e))"
  then have p: "\<not> (falsy (args_get a ''start_date'') \<or> falsy (args_get a ''end_date'')
            \<or> args_get_int a ''num_bedrooms'' = None \<or> args_get_int a ''num_bedrooms'' = Some 0)"
    by (simp add: falsy_def)
  show "check_availability_and_price st a = (Server_error ValueError, [])"
  proof (cases "strptime_ymd s")
    case (Inl x)
    then have "x = ValueError" by (rule strptime_ymd_error)
    with Inl h p show ?thesis
      by (simp add: check_availability_and_price_def Let_def)
  next
    case (Inr sd)
    with h obtain x where x: "strptime_ymd e = Inl x" by (cases "strptime_ymd e") auto
    then have "x = ValueError" by (rule strptime_ymd_error)
    with x Inr h p show ?thesis
      by (simp add: check_availability_and_price_def Let_def)
  qed
qed

theorem date_errors_before_data_store_witness:
  "check_availability_and_price empty_store no_start_date = (Missing_parameters, [])
   \<and> status_code Missing_parameters = 400
   \<and> check_availability_and_price empty_store bad_month = (Server_error ValueError, [])"
proof -
  have f: "falsy (args_get no_start_date ''start_date'')"
    by code_simp
  have h: "args_get bad_month ''start_date'' = Some ''2025-13-01'' \<and> ''2025-13-01'' \<noteq> []
        \<and> args_get bad_month ''end_date'' = Some ''2025-11-15'' \<and> ''2025-11-15'' \<noteq> []
        \<and> args_get_int bad_month ''num_bedrooms'' = Some 1 \<and> (1::int) \<noteq> 0
        \<and> (isl (strptime_ymd ''2025-13-01'') \<or> isl (strptime_ymd ''2025-11-15''))"
    by code_simp
  from date_errors_before_data_store [where a = no_start_date and st = empty_store] f
  have "check_availability_and_price empty_store no_start_date = (Missing_parameters, [])"
    by blast
  moreover
  from date_errors_before_data_store
         [where a = bad_month and s = "''2025-13-01''" and e = "''2025-11-15''" and b = 1
            and st = empty_store] h
  have "check_availability_and_price empty_store bad_month = (Server_error ValueError, [])"
    by blast
  ultimately show ?thesis by (simp add: status_code_def)
qed

subsection \<open>The data-store connection\<close>

text \<open>
  C8: when \<^verbatim>\<open>cur.execute\<close> raises, the connection that was opened is not closed:
  the calls made are \<^verbatim>\<open>connect\<close> and \<^verbatim>\<open>cursor\<close> only, and the server error is
  returned.
\<close>

theorem failed_query_leaves_connection_open:
  "check_availability_and_price \<lparr>tables = db, fails_at = Some Execute\<rparr> long_stay
     = (Server_error DatabaseError, [Connect, Cursor])
   \<and> Connect \<in> set (snd (check_availability_and_price
                            \<lparr>tables = db, fails_at = Some Execute\<rparr> long_stay))
   \<and> Conn_close \<notin> set (snd (check_availability_and_price
                            \<lparr>tables = db, fails_at = Some Execute\<rparr> long_stay))"
  by code_simp

text \<open>The same happens without a fault of the data store when a date parameter is one
  that \<^verbatim>\<open>strptime\<close> accepts and the data store cannot read.\<close>

lemma unreadable_date_parameter:
  "strptime_ymd ''2025-11- 5'' = Inr (Date 2025 11 5)
   \<and> check_availability_and_price \<lparr>tables = db, fails_at = None\<rparr> space_day_stay
       = (Server_error DatabaseError, [Connect, Cursor])"
  by code_simp

subsection \<open>Booking overlap\<close>

text \<open>
  C4: a property is excluded by the bookings exactly when one of its bookings has
  \<open>start_date < requested end\<close> and \<open>end_date > requested start\<close>, and an excluded
  property passes the \<^verbatim>\<open>WHERE\<close> clause with no rule row. So bookings that all end
  on or before the requested start, or start on or after the requested end, do not
  exclude it.
\<close>

theorem booking_excludes_iff_overlap:
  "(not_booked (bookings db) end_date start_date p = Some False \<longleftrightarrow>
     (\<exists>b \<in> set (bookings db). b_property_id b = p_id p
         \<and> toordinal (b_start_date b) < toordinal end_date
         \<and> toordinal (b_end_date b) > toordinal start_date))
   \<and> (not_booked (bookings db) end_date start_date p = Some False
        \<longrightarrow> where_clause db nb n end_date start_date (p, pr) \<noteq> Some True)
   \<and> ((\<forall>b \<in> set (bookings db). b_property_id b = p_id p
          \<longrightarrow> toordinal (b_end_date b) \<le> toordinal start_date
              \<or> toordinal end_date \<le> toordinal (b_start_date b))
        \<longrightarrow> not_booked (bookings db) end_date start_date p = Some True)"
  by (force simp add: not_booked_def booked_property_ids_def where_clause_True)

text \<open>The booking from 2025-10-10 to 2025-10-20 excludes the apartment for a stay from
  2025-10-15 to 2025-10-25 and not for a stay from 2025-10-20 to 2025-10-30.\<close>

theorem booking_excludes_iff_overlap_witness:
  "not_booked (bookings booked_db) (Date 2025 10 25) (Date 2025 10 15) apto = Some False
   \<and> not_booked (bookings booked_db) (Date 2025 10 30) (Date 2025 10 20) apto = Some True
   \<and> check_availability_and_price \<lparr>tables = booked_db, fails_at = None\<rparr> overlapping_stay
       = (Results [], all_calls)
   \<and> check_availability_and_price \<lparr>tables = booked_db, fails_at = None\<rparr> touching_stay
       = (Results [apto_entry None 800000], all_calls)"
proof -
  have a: "\<exists>b \<in> set (bookings booked_db). b_property_id b = p_id apto
         \<and> toordinal (b_start_date b) < toordinal (Date 2025 10 25)
         \<and> toordinal (b_end_date b) > toordinal (Date 2025 10 15)"
    by code_simp
  have b: "\<forall>b \<in> set (bookings booked_db). b_property_id b = p_id apto
          \<longrightarrow> toordinal (b_end_date b) \<le> toordinal (Date 2025 10 20)
              \<or> toordinal (Date 2025 10 30) \<le> toordinal (b_start_date b)"
    by code_simp
  have c: "check_availability_and_price \<lparr>tables = booked_db, fails_at = None\<rparr> overlapping_stay
       = (Results [], all_calls)"
    by code_simp
  have d: "check_availability_and_price \<lparr>tables = booked_db, fails_at = None\<rparr> touching_stay
       = (Results [apto_entry None 800000], all_calls)"
    by code_simp
  from booking_excludes_iff_overlap [of booked_db "Date 2025 10 25" "Date 2025 10 15" apto] a
  have "not_booked (bookings booked_db) (Date 2025 10 25) (Date 2025 10 15) apto = Some False"
    by blast
  moreover
  from booking_excludes_iff_overlap [of booked_db "Date 2025 10 30" "Date 2025 10 20" apto] b
  have "not_booked (bookings booked_db) (Date 2025 10 30) (Date 2025 10 20) apto = Some True"
    by blast
  ultimately show ?thesis using c d by blast
qed

subsection \<open>What the result list holds\<close>

text \<open>
  C5, as stated, fails: the test \<^verbatim>\<open>total_price > 0\<close> is made before rounding. At a
  nightly price of 0.01 a stay of 26 nights has the total 0.26, which is positive and
  rounds to 0: the entry is in the result list with \<^verbatim>\<open>total_price\<close> 0.
\<close>

theorem entry_with_zero_total_price:
  "check_availability_and_price \<lparr>tables = cent_db, fails_at = None\<rparr> long_stay
     = (Results [apto_entry None 0], all_calls)
   \<and> total_price_field (apto_entry None 0) = Finite 0"
  by code_simp

text \<open>
  C5, amended: every entry of the result list has a \<^verbatim>\<open>total_price\<close> that is a whole
  number, not negative, and positive whenever the computed total is at least one half;
  the entry comes from a row whose computed total is positive, so a candidate whose
  total is zero or negative (the case of no applicable rate included) never appears.
\<close>

theorem entries_come_from_positive_totals:
  assumes "price_rows n rows = Inr es" and "e \<in> set es"
  shows "\<exists>v. total_price_field e = Finite (of_int v) \<and> 0 \<le> v
       \<and> (\<exists>i nm d ppn mr. (i, nm, d, ppn, mr) \<in> set rows
             \<and> price_row n (i, nm, d, ppn, mr) = Inr (Some e)
             \<and> 0 < total_price n ppn mr
             \<and> (1 / 2 \<le> total_price n ppn mr \<longrightarrow> 0 < v))"
proof -
  from price_rows_member [OF assms] obtain row where
    r: "row \<in> set rows" "price_row n row = Inr (Some e)" by blast
  obtain i nm d ppn mr where row: "row = (i, nm, d, ppn, mr)"
    by (cases row) auto
  define z where "z = \<lfloor>total_price n ppn mr + 1 / 2\<rfloor>"
  from price_row_Some r row have t: "0 < total_price n ppn mr" and z28: "z < 10 ^ 28"
    and f: "total_price_field e = float_of_decimal (of_int z)"
    unfolding z_def by blast+
  from t have z0: "0 \<le> z" by (simp add: z_def)
  from float_of_rounded_total [OF z0 z28] obtain v where
    v: "float_of_decimal (of_int z) = Finite (of_int v)" "z = 0 \<longrightarrow> v = 0" "1 \<le> z \<longrightarrow> 1 \<le> v"
    by blast
  from z0 v have v0: "0 \<le> v" by (cases "z = 0") auto
  have "1 / 2 \<le> total_price n ppn mr \<longrightarrow> 1 \<le> z"
    by (auto simp add: z_def le_floor_iff)
  with v have h: "1 / 2 \<le> total_price n ppn mr \<longrightarrow> 0 < v" by auto
  from f v(1) have a: "total_price_field e = Finite (of_int v)" by simp
  from r row t h have b: "\<exists>i nm d ppn mr. (i, nm, d, ppn, mr) \<in> set rows
             \<and> price_row n (i, nm, d, ppn, mr) = Inr (Some e)
             \<and> 0 < total_price n ppn mr
             \<and> (1 / 2 \<le> total_price n ppn mr \<longrightarrow> 0 < v)"
    by blast
  from a v0 b show ?thesis by blast
qed

theorem entries_come_from_positive_totals_witness:
  "price_rows 10 [(1, ''Apto 101'', ''Centro'', Some 80000, None),
                  (2, ''Apto 102'', ''Norte'', None, None)]
     = Inr [apto_entry None 800000]
   \<and> (\<exists>v. total_price_field (apto_entry None 800000) = Finite (of_int v) \<and> 0 \<le> v)
   \<and> (\<exists>i nm d ppn mr.
         price_row 10 (i, nm, d, ppn, mr) = Inr (Some (apto_entry None 800000))
         \<and> 0 < total_price 10 ppn mr)"
proof -
  have p: "price_rows 10 [(1, ''Apto 101'', ''Centro'', Some 80000, None),
                  (2, ''Apto 102'', ''Norte'', None, None)]
     = Inr [apto_entry None 800000]"
    by code_simp
  have m: "apto_entry None 800000 \<in> set [apto_entry None 800000]"
    by simp
  from entries_come_from_positive_totals [OF p m] p show ?thesis by blast
qed

subsection \<open>The outer join\<close>

lemma where_outer_split:
  "where_clause db nb n e s row = Some True \<longleftrightarrow>
     snd row \<noteq> None \<and> spec_where_clause db nb n e s row = Some True"
  by (cases row; cases "snd row")
     (auto simp add: where_clause_True spec_where_clause_def sql_and_True sql_or_True
        not_booked_def rule_needs_row)

lemma price_row_unmatched: "price_row n (select_columns (p, None)) = Inr None"
  by (simp add: price_row_def select_columns_def col_price_per_night_def col_monthly_rate_def
      total_price_def)

lemma price_rows_drop_unmatched:
  "price_rows n (map select_columns (filter (\<lambda>row. snd row \<noteq> None) xs))
     = price_rows n (map select_columns xs)"
proof (induction xs)
  case Nil
  then show ?case by simp
next
  case (Cons x xs)
  obtain p pr where x: "x = (p, pr)" by (cases x)
  show ?case
  proof (cases pr)
    case None
    with x Cons show ?thesis
      by (simp add: price_row_unmatched split: sum.splits)
  next
    case (Some r)
    with x Cons show ?thesis by (simp split: sum.splits)
  qed
qed

text \<open>
  C7, as stated, fails: a property with no matching rule row is not a candidate of the
  query. The \<^verbatim>\<open>NULL\<close> row the outer join makes for it is removed by the rule
  conditions of the \<^verbatim>\<open>WHERE\<close> clause, so it never reaches the price calculator.
\<close>

theorem unmatched_property_is_not_a_candidate:
  "sql_query no_rule_db 1 26 (Date 2025 11 15) (Date 2025 10 20) = []
   \<and> spec_candidates no_rule_db 1 26 (Date 2025 11 15) (Date 2025 10 20)
       = [(1, ''Apto 101'', ''Centro'', None, None)]"
  by code_simp

text \<open>
  C7, amended: the join is an outer join, but every row that passes the \<^verbatim>\<open>WHERE\<close>
  clause has a rule row, so a property with no matching rule is filtered out by the
  query. Keeping such properties as candidates and dropping them after pricing, as the
  specification describes, gives the same final result (or the same error).
\<close>

theorem unmatched_property_filtered_by_query:
  "price_rows n (sql_query db nb n e s) = price_rows n (spec_candidates db nb n e s)
   \<and> (\<forall>row \<in> set (left_join (properties db) (pricing_rules db)).
         where_clause db nb n e s row = Some True \<longrightarrow> snd row \<noteq> None)"
proof
  let ?J = "left_join (properties db) (pricing_rules db)"
  let ?k = "\<lambda>row :: joined_row. p_id (fst row)"
  have "filter (\<lambda>row. where_clause db nb n e s row = Some True) ?J
      = filter (\<lambda>row. snd row \<noteq> None)
          (filter (\<lambda>row. spec_where_clause db nb n e s row = Some True) ?J)"
    by (simp add: where_outer_split [of db nb n e s] conj_commute)
  then have "sort_key ?k (filter (\<lambda>row. where_clause db nb n e s row = Some True) ?J)
      = filter (\<lambda>row. snd row \<noteq> None)
          (sort_key ?k (filter (\<lambda>row. spec_where_clause db nb n e s row = Some True) ?J))"
    by (simp only: filter_sort)
  then show "price_rows n (sql_query db nb n e s) = price_rows n (spec_candidates db nb n e s)"
    unfolding sql_query_def spec_candidates_def
    by (simp only: price_rows_drop_unmatched)
  show "\<forall>row \<in> set ?J. where_clause db nb n e s row = Some True \<longrightarrow> snd row \<noteq> None"
    using where_outer_split by blast
qed



theorem unmatched_property_filtered_by_query_witness:
  "price_rows 26 (sql_query no_rule_db 1 26 (Date 2025 11 15) (Date 2025 10 20)) = Inr []
   \<and> price_rows 26 (spec_candidates no_rule_db 1 26 (Date 2025 11 15) (Date 2025 10 20))
       = Inr []"
proof -
  have "price_rows 26 (sql_query no_rule_db 1 26 (Date 2025 11 15) (Date 2025 10 20)) = Inr []"
    by code_simp
  with unmatched_property_filtered_by_query
         [of 26 no_rule_db 1 "Date 2025 11 15" "Date 2025 10 20"]
  show ?thesis by simp
qed

subsection \<open>Several rules for one property\<close>

lemma join_property_fst: "jr \<in> set (join_property rules q) \<Longrightarrow> fst jr = q"
  by (auto simp add: join_property_def Let_def split: if_splits)

lemma left_join_fst: "jr \<in> set (left_join ps rules) \<Longrightarrow> fst jr \<in> set ps"
  by (auto simp add: left_join_def dest: join_property_fst)

lemma filter_left_join_id:
  "distinct (map p_id ps) \<Longrightarrow> p \<in> set ps \<Longrightarrow>
     filter (\<lambda>jr. p_id (fst jr) = p_id p) (left_join ps rules) = join_property rules p"
proof (induction ps)
  case Nil
  then show ?case by simp
next
  case (Cons q ps)
  have lj: "left_join (q # ps) rules = join_property rules q @ left_join ps rules"
    by (simp add: left_join_def)
  show ?case
  proof (cases "q = p")
    case True
    have "filter (\<lambda>jr. p_id (fst jr) = p_id p) (join_property rules p) = join_property rules p"
      by (auto simp add: filter_id_conv dest: join_property_fst)
    moreover have "filter (\<lambda>jr. p_id (fst jr) = p_id p) (left_join ps rules) = []"
    proof -
      have "p_id (fst jr) \<noteq> p_id p" if "jr \<in> set (left_join ps rules)" for jr
      proof -
        from that have "fst jr \<in> set ps" by (rule left_join_fst)
        then have "p_id (fst jr) \<in> p_id ` set ps" by (rule imageI)
        with Cons.prems(1) True show ?thesis by auto
      qed
      then show ?thesis by (simp add: filter_empty_conv)
    qed
    ultimately show ?thesis using True lj by simp
  next
    case False
    with Cons.prems have p: "p \<in> set ps" and ne: "p_id q \<noteq> p_id p" by auto
    have "filter (\<lambda>jr. p_id (fst jr) = p_id p) (join_property rules q) = []"
      using ne by (auto simp add: filter_empty_conv dest: join_property_fst)
    then show ?thesis using Cons p lj by simp
  qed
qed

lemma sort_key_same_key: "\<forall>x \<in> set xs. f x = k \<Longrightarrow> sort_key f xs = xs"
  by (induction xs) (simp_all add: insort_is_Cons)

lemma rule_conditions_iff:
  "nightly_rule n (Some r) = Some True \<or> monthly_rule n (Some r) = Some True \<longleftrightarrow>
     (pr_min_nights r \<le> n \<and> n \<le> pr_max_nights r \<and> pr_monthly_rate r = None)
     \<or> (30 \<le> n \<and> pr_monthly_rate r \<noteq> None \<and> 30 \<le> pr_min_nights r)"
  by (auto simp add: nightly_rule_def monthly_rule_def sql_and_True sql_le_def
      col_min_nights_def col_max_nights_def col_monthly_rate_def)

lemma not_booked_iff:
  "p_id p \<notin> set (booked_property_ids bs e s) \<longleftrightarrow>
     \<not> (\<exists>b \<in> set bs. b_property_id b = p_id p
            \<and> toordinal (b_start_date b) < toordinal e
            \<and> toordinal s < toordinal (b_end_date b))"
  by (force simp add: booked_property_ids_def)

lemma filter_where_join_property:
  assumes "p_num_bedrooms p = nb" and "p_min_stay_nights p \<le> n"
    and "p_id p \<notin> set (booked_property_ids (bookings db) e s)"
  shows "filter (\<lambda>row. where_clause db nb n e s row = Some True) (join_property rules p)
       = map (\<lambda>r. (p, Some r))
           (filter (\<lambda>r. pr_category r = p_pricing_category p
                       \<and> ((pr_min_nights r \<le> n \<and> n \<le> pr_max_nights r
                              \<and> pr_monthly_rate r = None)
                            \<or> (30 \<le> n \<and> pr_monthly_rate r \<noteq> None \<and> 30 \<le> pr_min_nights r)))
              rules)"
proof (cases "filter (\<lambda>r. pr_category r = p_pricing_category p) rules = []")
  case True
  then have "filter (\<lambda>r. pr_category r = p_pricing_category p
                       \<and> ((pr_min_nights r \<le> n \<and> n \<le> pr_max_nights r
                              \<and> pr_monthly_rate r = None)
                            \<or> (30 \<le> n \<and> pr_monthly_rate r \<noteq> None \<and> 30 \<le> pr_min_nights r)))
              rules = []"
    by (auto simp add: filter_empty_conv)
  with True show ?thesis
    by (simp add: join_property_def where_clause_True rule_needs_row)
next
  case False
  then show ?thesis using assms
    by (simp add: join_property_def filter_map comp_def where_clause_True
        rule_conditions_iff conj_commute)
qed

lemma rows_of_property:
  assumes "p \<in> set (properties db)" and "distinct (map p_id (properties db))"
    and "p_num_bedrooms p = nb" and "p_min_stay_nights p \<le> n"
    and "p_id p \<notin> set (booked_property_ids (bookings db) e s)"
  shows "filter (\<lambda>row. fst row = p_id p) (sql_query db nb n e s)
       = map (\<lambda>r. (p_id p, p_name p, p_description p,
                           pr_price_per_night r, pr_monthly_rate r))
           (filter (\<lambda>r. pr_category r = p_pricing_category p
                       \<and> ((pr_min_nights r \<le> n \<and> n \<le> pr_max_nights r
                              \<and> pr_monthly_rate r = None)
                            \<or> (30 \<le> n \<and> pr_monthly_rate r \<noteq> None \<and> 30 \<le> pr_min_nights r)))
              (pricing_rules db))"
proof -
  let ?W = "\<lambda>row. where_clause db nb n e s row = Some True"
  let ?I = "\<lambda>jr :: joined_row. p_id (fst jr) = p_id p"
  let ?k = "\<lambda>row :: joined_row. p_id (fst row)"
  let ?J = "left_join (properties db) (pricing_rules db)"
  have sel: "fst (select_columns jr) = p_id (fst jr)" for jr
    by (cases jr) (simp add: select_columns_def)
  have "filter (\<lambda>row. fst row = p_id p) (sql_query db nb n e s)
      = map select_columns (filter ?I (sort_key ?k (filter ?W ?J)))"
    by (simp add: sql_query_def filter_map comp_def sel)
  also have "filter ?I (sort_key ?k (filter ?W ?J)) = sort_key ?k (filter ?I (filter ?W ?J))"
    by (simp only: filter_sort)
  also have "\<dots> = filter ?I (filter ?W ?J)"
    by (rule sort_key_same_key [where k = "p_id p"]) simp
  also have "\<dots> = filter ?W (filter ?I ?J)"
    by (simp add: conj_commute)
  also have "filter ?I ?J = join_property (pricing_rules db) p"
    using assms(1,2) by (simp add: filter_left_join_id)
  also have "filter ?W (join_property (pricing_rules db) p)
      = map (\<lambda>r. (p, Some r))
           (filter (\<lambda>r. pr_category r = p_pricing_category p
                       \<and> ((pr_min_nights r \<le> n \<and> n \<le> pr_max_nights r
                              \<and> pr_monthly_rate r = None)
                            \<or> (30 \<le> n \<and> pr_monthly_rate r \<noteq> None \<and> 30 \<le> pr_min_nights r)))
              (pricing_rules db))"
    using assms(3,4,5) by (rule filter_where_join_property)
  finally show ?thesis
    by (simp add: select_columns_def comp_def col_price_per_night_def col_monthly_rate_def)
qed

lemma price_rows_ids:
  "price_rows n rows = Inr es \<Longrightarrow>
     map property_id es = map fst (filter (\<lambda>(i, nm, d, ppn, mr). 0 < total_price n ppn mr) rows)"
proof (induction rows arbitrary: es)
  case Nil
  then show ?case by simp
next
  case (Cons r rows)
  obtain i nm d ppn mr where r: "r = (i, nm, d, ppn, mr)" by (cases r) auto
  from Cons.prems obtain x rs where
    x: "price_row n r = Inr x" and rs: "price_rows n rows = Inr rs"
    and es: "es = (case x of None \<Rightarrow> rs | Some y \<Rightarrow> y # rs)"
    by (auto split: sum.splits)
  from x r have "(x = None \<longleftrightarrow> \<not> 0 < total_price n ppn mr)
      \<and> (\<forall>y. x = Some y \<longrightarrow> property_id y = i)"
    by (auto simp add: price_row_def Let_def split: if_splits sum.splits)
  with Cons.IH [OF rs] es r show ?case
    by (cases x) auto
qed

text \<open>
  C9, as stated, fails: a rule row can qualify and yet give no entry. With a nightly
  rule whose price is \<^verbatim>\<open>NULL\<close> beside a nightly rule of 80000, both in range for 10
  nights, the query returns two rows for the apartment and the result list has one
  entry.
\<close>

theorem qualifying_row_without_entry:
  "sql_query unpriced_rule_db 1 10 (Date 2025 10 25) (Date 2025 10 15)
     = [(1, ''Apto 101'', ''Centro'', None, None), (1, ''Apto 101'', ''Centro'', Some 80000, None)]
   \<and> check_availability_and_price \<lparr>tables = unpriced_rule_db, fails_at = None\<rparr>
        overlapping_stay
       = (Results [apto_entry None 800000], all_calls)"
  by code_simp

text \<open>
  C9, amended: for a property with a unique id that has the requested bedroom count, a
  minimum stay of at most \<open>n\<close> nights and no overlapping booking, the query returns
  exactly one row for each rule row of its pricing category that qualifies (a nightly
  rule with \<open>min_nights \<le> n \<le> max_nights\<close> and no monthly rate, or, for
  \<open>n \<ge> 30\<close>, a monthly rule with \<open>min_nights \<ge> 30\<close>). The result list has one
  entry, in the order of the rows and without deduplication or tie-break, for each
  returned row whose computed total is positive, and none for the other rows. So one
  property id can occur several times with different prices.
\<close>

theorem one_entry_per_positively_priced_row:
  "(p \<in> set (properties db) \<and> distinct (map p_id (properties db))
      \<and> p_num_bedrooms p = nb \<and> p_min_stay_nights p \<le> n
      \<and> \<not> (\<exists>b \<in> set (bookings db). b_property_id b = p_id p
                \<and> toordinal (b_start_date b) < toordinal e
                \<and> toordinal s < toordinal (b_end_date b))
     \<longrightarrow> mset (filter (\<lambda>row. fst row = p_id p) (sql_query db nb n e s))
          = mset (map (\<lambda>r. (p_id p, p_name p, p_description p,
                              pr_price_per_night r, pr_monthly_rate r))
              (filter (\<lambda>r. pr_category r = p_pricing_category p
                          \<and> ((pr_min_nights r \<le> n \<and> n \<le> pr_max_nights r
                                 \<and> pr_monthly_rate r = None)
                               \<or> (30 \<le> n \<and> pr_monthly_rate r \<noteq> None
                                   \<and> 30 \<le> pr_min_nights r)))
                 (pricing_rules db))))
   \<and> (price_rows n rows = Inr es
     \<longrightarrow> map property_id es
          = map fst (filter (\<lambda>(i, nm, d, ppn, mr). 0 < total_price n ppn mr) rows))"
proof (intro conjI impI)
  assume h: "p \<in> set (properties db) \<and> distinct (map p_id (properties db))
      \<and> p_num_bedrooms p = nb \<and> p_min_stay_nights p \<le> n
      \<and> \<not> (\<exists>b \<in> set (bookings db). b_property_id b = p_id p
                \<and> toordinal (b_start_date b) < toordinal e
                \<and> toordinal s < toordinal (b_end_date b))"
  then have nb: "p_id p \<notin> set (booked_property_ids (bookings db) e s)"
    by (simp only: not_booked_iff) blast
  from h have "p \<in> set (properties db)" "distinct (map p_id (properties db))"
    "p_num_bedrooms p = nb" "p_min_stay_nights p \<le> n" by blast+
  from arg_cong [where f = mset, OF rows_of_property [OF this nb]]
  show "mset (filter (\<lambda>row. fst row = p_id p) (sql_query db nb n e s))
          = mset (map (\<lambda>r. (p_id p, p_name p, p_description p,
                              pr_price_per_night r, pr_monthly_rate r))
              (filter (\<lambda>r. pr_category r = p_pricing_category p
                          \<and> ((pr_min_nights r \<le> n \<and> n \<le> pr_max_nights r
                                 \<and> pr_monthly_rate r = None)
                               \<or> (30 \<le> n \<and> pr_monthly_rate r \<noteq> None
                                   \<and> 30 \<le> pr_min_nights r)))
                 (pricing_rules db)))" .
next
  assume "price_rows n rows = Inr es"
  then show "map property_id es
          = map fst (filter (\<lambda>(i, nm, d, ppn, mr). 0 < total_price n ppn mr) rows)"
    by (rule price_rows_ids)
qed

text \<open>A stay of 35 nights in an apartment whose category has a nightly rule of 80000
  and a monthly rule of 900000: two rows, two entries with the same id.\<close>

theorem one_entry_per_positively_priced_row_witness:
  "mset (filter (\<lambda>row. fst row = 1)
           (sql_query two_rule_db 1 35 (Date 2025 11 24) (Date 2025 10 20)))
     = mset [(1, ''Apto 101'', ''Centro'', Some 80000, None),
             (1, ''Apto 101'', ''Centro'', None, Some 900000)]
   \<and> check_availability_and_price \<lparr>tables = two_rule_db, fails_at = None\<rparr> five_week_stay
       = (Results [apto_entry None 2800000, apto_entry (Some 900000) 1050000], all_calls)
   \<and> map property_id [apto_entry None 2800000, apto_entry (Some 900000) 1050000] = [1, 1]"
proof -
  have h: "apto \<in> set (properties two_rule_db) \<and> distinct (map p_id (properties two_rule_db))
      \<and> p_num_bedrooms apto = 1 \<and> p_min_stay_nights apto \<le> 35
      \<and> \<not> (\<exists>b \<in> set (bookings two_rule_db). b_property_id b = p_id apto
                \<and> toordinal (b_start_date b) < toordinal (Date 2025 11 24)
                \<and> toordinal (Date 2025 10 20) < toordinal (b_end_date b))"
    by code_simp
  have r: "map (\<lambda>r. (p_id apto, p_name apto, p_description apto,
                      pr_price_per_night r, pr_monthly_rate r))
              (filter (\<lambda>r. pr_category r = p_pricing_category apto
                          \<and> ((pr_min_nights r \<le> 35 \<and> 35 \<le> pr_max_nights r
                                 \<and> pr_monthly_rate r = None)
                               \<or> (30 \<le> (35::int) \<and> pr_monthly_rate r \<noteq> None
                                   \<and> 30 \<le> pr_min_nights r)))
                 (pricing_rules two_rule_db))
       = [(1, ''Apto 101'', ''Centro'', Some 80000, None),
          (1, ''Apto 101'', ''Centro'', None, Some 900000)]"
    by code_simp
  have i: "p_id apto = 1" by code_simp
  have c: "check_availability_and_price \<lparr>tables = two_rule_db, fails_at = None\<rparr>
             five_week_stay
       = (Results [apto_entry None 2800000, apto_entry (Some 900000) 1050000], all_calls)"
    by code_simp
  have p: "price_rows 35 [(1, ''Apto 101'', ''Centro'', Some 80000, None),
                          (1, ''Apto 101'', ''Centro'', None, Some 900000)]
       = Inr [apto_entry None 2800000, apto_entry (Some 900000) 1050000]"
    by code_simp
  from one_entry_per_positively_priced_row
         [where p = apto and db = two_rule_db and nb = 1 and n = 35
            and e = "Date 2025 11 24" and s = "Date 2025 10 20"] h
  have "mset (filter (\<lambda>row. fst row = p_id apto)
           (sql_query two_rule_db 1 35 (Date 2025 11 24) (Date 2025 10 20)))
     = mset (map (\<lambda>r. (p_id apto, p_name apto, p_description apto,
                      pr_price_per_night r, pr_monthly_rate r))
              (filter (\<lambda>r. pr_category r = p_pricing_category apto
                          \<and> ((pr_min_nights r \<le> 35 \<and> 35 \<le> pr_max_nights r
                                 \<and> pr_monthly_rate r = None)
                               \<or> (30 \<le> (35::int) \<and> pr_monthly_rate r \<noteq> None
                                   \<and> 30 \<le> pr_min_nights r)))
                 (pricing_rules two_rule_db)))"
    by blast
  then have "mset (filter (\<lambda>row. fst row = p_id apto)
           (sql_query two_rule_db 1 35 (Date 2025 11 24) (Date 2025 10 20)))
     = mset [(1, ''Apto 101'', ''Centro'', Some 80000, None),
             (1, ''Apto 101'', ''Centro'', None, Some 900000)]"
    by (simp only: r)
  then have a: "mset (filter (\<lambda>row. fst row = 1)
           (sql_query two_rule_db 1 35 (Date 2025 11 24) (Date 2025 10 20)))
     = mset [(1, ''Apto 101'', ''Centro'', Some 80000, None),
             (1, ''Apto 101'', ''Centro'', None, Some 900000)]"
    by (simp only: i)
  from one_entry_per_positively_priced_row
         [where n = 35 and rows = "[(1, ''Apto 101'', ''Centro'', Some 80000, None),
                          (1, ''Apto 101'', ''Centro'', None, Some 900000)]"
            and es = "[apto_entry None 2800000, apto_entry (Some 900000) 1050000]"] p
  have "map property_id [apto_entry None 2800000, apto_entry (Some 900000) 1050000]
      = map fst (filter (\<lambda>(i, nm, d, ppn, mr). 0 < total_price 35 ppn mr)
           [(1, ''Apto 101'', ''Centro'', Some 80000, None),
            (1, ''Apto 101'', ''Centro'', None, Some 900000)])"
    by blast
  then have b: "map property_id [apto_entry None 2800000, apto_entry (Some 900000) 1050000]
      = [1, 1]"
    by (simp add: apto_entry_def)
  from a b c show ?thesis by blast
qed

end
